theory Spec2Isabelle
  imports Complex_Main "HOL-Library.AList"
begin

section \<open>Values, documents and exceptions\<close>

text \<open>
  The worker (\<^verbatim>\<open>worker.py\<close>) moves Firestore documents around; it performs no
  arithmetic on them. A document is a Python dict from field names to values. Floating
  point numbers are carried as data only, so a finite double is represented by the
  rational it denotes.
\<close>

datatype pyfloat = Finite rat | PosInf | NegInf | NaN

datatype val =
    VNull
  | VBool bool
  | VInt int
  | VFloat pyfloat
  | VStr string
  | VTimestamp nat
  | VOther nat  \<comment> \<open>bytes, references, geo points, arrays, maps: never inspected\<close>

type_synonym doc = "string \<rightharpoonup> val"

text \<open>
  What is handed to a Firestore write: a plain value, or the sentinel
  \<^verbatim>\<open>firestore.SERVER_TIMESTAMP\<close>, which the server replaces by its own clock.
\<close>

datatype field_value = Plain val | SERVER_TIMESTAMP

type_synonym write_doc = "string \<rightharpoonup> field_value"

text \<open>
  The exceptions of the model are all subclasses of Python's \<^verbatim>\<open>Exception\<close>:
  what the dict subscript, list indexing, the store client and the model may raise, and
  what \<^verbatim>\<open>print\<close> raises on a closed or broken console (\<open>ConsoleError\<close>).
\<close>

datatype error =
    KeyError string
  | IndexError
  | NotFound string
  | Unavailable
  | ModelError
  | ConsoleError

text \<open>Python's \<^verbatim>\<open>v == True\<close>: \<^verbatim>\<open>True\<close>, \<^verbatim>\<open>1\<close> and \<^verbatim>\<open>1.0\<close> compare equal to it.\<close>

fun eq_True :: "val \<Rightarrow> bool" where
  "eq_True (VBool b) = b"
| "eq_True (VInt i) = (i = 1)"
| "eq_True (VFloat f) = (f = Finite 1)"
| "eq_True VNull = False"
| "eq_True (VStr s) = False"
| "eq_True (VTimestamp t) = False"
| "eq_True (VOther n) = False"

text \<open>\<^verbatim>\<open>xs[i]\<close> on a sequence raises \<^verbatim>\<open>IndexError\<close> out of range.\<close>

definition item :: "'a list \<Rightarrow> nat \<Rightarrow> error + 'a" where
  "item xs i = (if i < length xs then Inr (xs ! i) else Inl IndexError)"

section \<open>The process state\<close>

text \<open>
  What is observed of a run: the console lines that tell the control paths apart, the
  requests sent to the store, the calls of the Document Processor, the assignments to the
  two reconciler variables (with the state of \<^verbatim>\<open>processing_lock\<close> at that moment),
  subscriptions and thread starts.
\<close>

datatype message =
    Processing string
  | SkipCalibrated string
  | SkipProcessed string
  | Saved string
  | MissingField string string
  | ErrorProcessing string error
  | InitialSnapshot nat
  | ChangeDetected nat
  | AlreadyProcessed string
  | SensorLine string
  | TimestampLine string
  | OriginalLine string
  | CalibratedLine string
  | Traceback string

datatype variable = LastProcessedDocId | InitialSnapshotReceived

datatype event =
    Printed message
  | Queried
  | CalibratedGet string
  | CalibratedSet string write_doc
  | RawUpdate string write_doc
  | ProcessDocument string doc
  | Assigned variable bool
  | Subscribed
  | ThreadStarted

text \<open>
  The module globals of \<^verbatim>\<open>worker.py\<close> (\<open>model\<close>, \<open>last_processed_doc_id\<close>,
  \<open>initial_snapshot_received\<close>, \<open>processing_lock\<close>, \<open>worker_thread\<close>, \<open>running\<close>)
  together with the Firestore project behind the global \<open>db\<close>: the two collections as
  association lists from document id to document, the server clock, the store's order on
  field values (used by \<^verbatim>\<open>order_by\<close>), and a schedule saying which of the coming
  store requests fail. \<open>threads\<close> counts the threads started on \<open>start_listener\<close>,
  \<open>started_threads\<close> holds their thread objects, \<open>watches\<close> counts the subscriptions
  attached to the raw collection. \<open>console\<close> is a second schedule: which of the coming
  writes to the console fail.
\<close>

text \<open>
  A thread object: \<^verbatim>\<open>threading.Thread(target=start_listener, daemon=True)\<close>, and how
  far the thread has come in its target (not yet run, or inside the final loop).
\<close>

datatype callable = Start_listener

datatype progress = Ready | Looping

record thread =
  target :: callable
  daemon :: bool
  progress :: progress

record world =
  raw :: "(string \<times> doc) list"
  calibrated :: "(string \<times> doc) list"
  server_time :: nat
  ts_less :: "val \<Rightarrow> val \<Rightarrow> bool"
  faults :: "bool list"
  model :: "val list \<Rightarrow> error + pyfloat list list"
  last_processed_doc_id :: "string option"
  initial_snapshot_received :: bool
  lock_held :: bool
  worker_thread :: "nat option"
  running :: bool
  threads :: nat
  watches :: nat
  trace :: "event list"
  console :: "bool list"
  started_threads :: "thread list"

definition emit :: "event \<Rightarrow> world \<Rightarrow> world" where
  "emit e w = w\<lparr>trace := trace w @ [e]\<rparr>"

text \<open>The events a computation from \<open>w\<close> to \<open>w'\<close> has added.\<close>

definition new_events :: "world \<Rightarrow> world \<Rightarrow> event list" where
  "new_events w w' = drop (length (trace w)) (trace w')"

section \<open>The document store\<close>

text \<open>
  Every request to the store consumes one entry of the failure schedule; the request
  fails when that entry says so (an exhausted schedule means no more failures).
\<close>

definition fails :: "world \<Rightarrow> bool" where
  "fails w = (case faults w of [] \<Rightarrow> False | f # fs \<Rightarrow> f)"

definition consume :: "world \<Rightarrow> world" where
  "consume w = w\<lparr>faults := tl (faults w)\<rparr>"

text \<open>\<^verbatim>\<open>db.collection(CALIBRATED_COLLECTION).document(doc_id).get()\<close>\<close>

definition calibrated_get :: "string \<Rightarrow> world \<Rightarrow> (error + doc option) \<times> world" where
  "calibrated_get doc_id w =
     (if fails w then (Inl Unavailable, consume (emit (CalibratedGet doc_id) w))
      else (Inr (map_of (calibrated w) doc_id), consume (emit (CalibratedGet doc_id) w)))"

text \<open>The server's view of a written document: sentinels become the server time.\<close>

definition resolve :: "nat \<Rightarrow> write_doc \<Rightarrow> doc" where
  "resolve t d = (\<lambda>k. case d k of
       None \<Rightarrow> None
     | Some (Plain v) \<Rightarrow> Some v
     | Some SERVER_TIMESTAMP \<Rightarrow> Some (VTimestamp t))"

definition store_calibrated :: "string \<Rightarrow> doc \<Rightarrow> world \<Rightarrow> world" where
  "store_calibrated doc_id d w = w\<lparr>calibrated := AList.update doc_id d (calibrated w)\<rparr>"

definition store_raw :: "string \<Rightarrow> doc \<Rightarrow> world \<Rightarrow> world" where
  "store_raw doc_id d w = w\<lparr>raw := AList.update doc_id d (raw w)\<rparr>"

text \<open>\<^verbatim>\<open>calibrated_ref.set(merged)\<close>: create or overwrite the document.\<close>

definition calibrated_set :: "string \<Rightarrow> write_doc \<Rightarrow> world \<Rightarrow> (error + unit) \<times> world" where
  "calibrated_set doc_id d w =
     (if fails w then (Inl Unavailable, consume (emit (CalibratedSet doc_id d) w))
      else (Inr (), store_calibrated doc_id (resolve (server_time w) d)
                      (consume (emit (CalibratedSet doc_id d) w))))"

text \<open>
  \<^verbatim>\<open>db.collection(RAW_COLLECTION).document(doc_id).update({...})\<close>: merges the given
  fields into an existing document and raises \<^verbatim>\<open>NotFound\<close> when there is none.
\<close>

definition raw_update :: "string \<Rightarrow> write_doc \<Rightarrow> world \<Rightarrow> (error + unit) \<times> world" where
  "raw_update doc_id d w =
     (if fails w then (Inl Unavailable, consume (emit (RawUpdate doc_id d) w))
      else
        (case map_of (raw w) doc_id of
           None \<Rightarrow> (Inl (NotFound doc_id), consume (emit (RawUpdate doc_id d) w))
         | Some old \<Rightarrow>
             (Inr (), store_raw doc_id (old ++ resolve (server_time w) d)
                        (consume (emit (RawUpdate doc_id d) w)))))"

text \<open>
  \<^verbatim>\<open>.order_by('timestamp', direction=DESCENDING).limit(1)\<close>: documents without the
  field are not in the result; among the others one with a greatest timestamp is kept
  (the earlier one in the list on a tie).
\<close>

fun order_by_timestamp_desc_limit_1 ::
  "(val \<Rightarrow> val \<Rightarrow> bool) \<Rightarrow> (string \<times> doc) list \<Rightarrow> (string \<times> doc) list" where
  "order_by_timestamp_desc_limit_1 before [] = []"
| "order_by_timestamp_desc_limit_1 before ((i, d) # rest) =
     (case d ''timestamp'' of
        None \<Rightarrow> order_by_timestamp_desc_limit_1 before rest
      | Some t \<Rightarrow>
          (case order_by_timestamp_desc_limit_1 before rest of
             [] \<Rightarrow> [(i, d)]
           | (j, e) # _ \<Rightarrow>
               (case e ''timestamp'' of
                  None \<Rightarrow> [(i, d)]
                | Some u \<Rightarrow> if before t u then [(j, e)] else [(i, d)])))"

text \<open>\<^verbatim>\<open>.stream()\<close> of that query.\<close>

definition stream_latest :: "world \<Rightarrow> (error + (string \<times> doc) list) \<times> world" where
  "stream_latest w =
     (if fails w then (Inl Unavailable, consume (emit Queried w))
      else (Inr (order_by_timestamp_desc_limit_1 (ts_less w) (raw w)), consume (emit Queried w)))"

section \<open>The Document Processor\<close>

text \<open>\<^verbatim>\<open>prepare_input\<close>: the loop over \<open>required\<close>, then the five subscripts.\<close>

definition required :: "string list" where
  "required = [''N'', ''P'', ''K'', ''pH'', ''Conductivity'']"

fun check_required :: "string list \<Rightarrow> doc \<Rightarrow> error + unit" where
  "check_required [] data = Inr ()"
| "check_required (key # keys) data =
     (if data key = None then Inl (KeyError key) else check_required keys data)"

fun subscripts :: "doc \<Rightarrow> string list \<Rightarrow> error + val list" where
  "subscripts data [] = Inr []"
| "subscripts data (key # keys) =
     (case data key of
        None \<Rightarrow> Inl (KeyError key)
      | Some v \<Rightarrow>
          (case subscripts data keys of
             Inl e \<Rightarrow> Inl e
           | Inr vs \<Rightarrow> Inr (v # vs)))"

definition prepare_input :: "doc \<Rightarrow> error + val list" where
  "prepare_input data =
     (case check_required required data of
        Inl e \<Rightarrow> Inl e
      | Inr _ \<Rightarrow> subscripts data [''N'', ''P'', ''K'', ''pH'', ''Conductivity''])"

text \<open>The dict literal \<open>calibrated_dict\<close> of \<^verbatim>\<open>process_document\<close>.\<close>

definition calibrated_dict :: "pyfloat list \<Rightarrow> error + write_doc" where
  "calibrated_dict row =
     (case item row 0 of
        Inl e \<Rightarrow> Inl e
      | Inr c0 \<Rightarrow>
     (case item row 1 of
        Inl e \<Rightarrow> Inl e
      | Inr c1 \<Rightarrow>
     (case item row 2 of
        Inl e \<Rightarrow> Inl e
      | Inr c2 \<Rightarrow>
     (case item row 3 of
        Inl e \<Rightarrow> Inl e
      | Inr c3 \<Rightarrow>
     (case item row 4 of
        Inl e \<Rightarrow> Inl e
      | Inr c4 \<Rightarrow>
          Inr (map_of
            [(''calibrated_N'', Plain (VFloat c0)),
             (''calibrated_P'', Plain (VFloat c1)),
             (''calibrated_K'', Plain (VFloat c2)),
             (''calibrated_pH'', Plain (VFloat c3)),
             (''calibrated_Conductivity'', Plain (VFloat c4)),
             (''calibrated_timestamp'', SERVER_TIMESTAMP)]))))))"

definition calibrated_fields :: "string list" where
  "calibrated_fields = [''calibrated_N'', ''calibrated_P'', ''calibrated_K'',
     ''calibrated_pH'', ''calibrated_Conductivity'', ''calibrated_timestamp'']"

text \<open>\<^verbatim>\<open>{**data, **calibrated_dict}\<close>\<close>

definition merged :: "doc \<Rightarrow> write_doc \<Rightarrow> write_doc" where
  "merged data cd = (map_option Plain \<circ> data) ++ cd"

definition processed_mark :: write_doc where
  "processed_mark = map_of [(''processed'', Plain (VBool True)), (''processed_at'', SERVER_TIMESTAMP)]"

text \<open>\<^verbatim>\<open>data.get('processed') == True\<close>\<close>

definition marked_processed :: "doc \<Rightarrow> bool" where
  "marked_processed data = (case data ''processed'' of None \<Rightarrow> False | Some v \<Rightarrow> eq_True v)"

text \<open>
  The body of the \<^verbatim>\<open>try\<close> block of \<^verbatim>\<open>process_document\<close>: it returns the value of
  its \<^verbatim>\<open>return\<close> statement or the exception that left it, and the world as it is then.
\<close>

definition process_document_try :: "string \<Rightarrow> doc \<Rightarrow> world \<Rightarrow> (error + bool) \<times> world" where
  "process_document_try doc_id data w0 =
     (case calibrated_get doc_id (emit (Printed (Processing doc_id)) w0) of
        (Inl e, w1) \<Rightarrow> (Inl e, w1)
      | (Inr snapshot, w1) \<Rightarrow>
          if snapshot \<noteq> None then (Inr False, emit (Printed (SkipCalibrated doc_id)) w1)
          else if marked_processed data
          then (Inr False, emit (Printed (SkipProcessed doc_id)) w1)
          else
            (case prepare_input data of
               Inl e \<Rightarrow> (Inl e, w1)
             | Inr X \<Rightarrow>
            (case model w1 X of
               Inl e \<Rightarrow> (Inl e, w1)
             | Inr rows \<Rightarrow>
            (case item rows 0 of
               Inl e \<Rightarrow> (Inl e, w1)
             | Inr row \<Rightarrow>
            (case calibrated_dict row of
               Inl e \<Rightarrow> (Inl e, w1)
             | Inr cd \<Rightarrow>
            (case calibrated_set doc_id (merged data cd) w1 of
               (Inl e, w2) \<Rightarrow> (Inl e, w2)
             | (Inr _, w2) \<Rightarrow>
            (case raw_update doc_id processed_mark w2 of
               (Inl e, w3) \<Rightarrow> (Inl e, w3)
             | (Inr _, w3) \<Rightarrow> (Inr True, emit (Printed (Saved doc_id)) w3))))))))"

text \<open>The two \<^verbatim>\<open>except\<close> clauses: \<^verbatim>\<open>KeyError\<close> first, then \<^verbatim>\<open>Exception\<close>.\<close>

fun handler_message :: "string \<Rightarrow> error \<Rightarrow> message" where
  "handler_message doc_id (KeyError key) = MissingField doc_id key"
| "handler_message doc_id IndexError = ErrorProcessing doc_id IndexError"
| "handler_message doc_id (NotFound i) = ErrorProcessing doc_id (NotFound i)"
| "handler_message doc_id Unavailable = ErrorProcessing doc_id Unavailable"
| "handler_message doc_id ModelError = ErrorProcessing doc_id ModelError"
| "handler_message doc_id ConsoleError = ErrorProcessing doc_id ConsoleError"

definition process_document :: "string \<Rightarrow> doc \<Rightarrow> world \<Rightarrow> bool \<times> world" where
  "process_document doc_id data w =
     (case process_document_try doc_id data (emit (ProcessDocument doc_id data) w) of
        (Inr success, w1) \<Rightarrow> (success, w1)
      | (Inl e, w1) \<Rightarrow> (False, emit (Printed (handler_message doc_id e)) w1))"

subsection \<open>The Document Processor on a console that can fail\<close>

text \<open>
  \<open>process_document\<close> above takes every \<^verbatim>\<open>print\<close> to succeed. Here each
  \<^verbatim>\<open>print\<close> (and \<^verbatim>\<open>traceback.print_exc\<close>) consumes one entry of the console
  schedule and raises when that entry says so. The first \<^verbatim>\<open>print\<close>, the two skip
  lines and the five lines after the writes stand inside the \<^verbatim>\<open>try\<close>; the lines of
  the two handlers stand outside any \<^verbatim>\<open>try\<close>, so what they raise leaves the function.
\<close>

definition console_fails :: "world \<Rightarrow> bool" where
  "console_fails w = (case console w of [] \<Rightarrow> False | f # fs \<Rightarrow> f)"

definition advance_console :: "world \<Rightarrow> world" where
  "advance_console w = w\<lparr>console := tl (console w)\<rparr>"

fun print_lines :: "message list \<Rightarrow> world \<Rightarrow> (error + unit) \<times> world" where
  "print_lines [] w = (Inr (), w)"
| "print_lines (m # ms) w =
     (if console_fails w then (Inl ConsoleError, advance_console w)
      else print_lines ms (emit (Printed m) (advance_console w)))"

definition process_document_io_try ::
  "string \<Rightarrow> doc \<Rightarrow> world \<Rightarrow> (error + bool) \<times> world" where
  "process_document_io_try doc_id data w0 =
     (case print_lines [Processing doc_id] w0 of
        (Inl e, wp) \<Rightarrow> (Inl e, wp)
      | (Inr _, wp) \<Rightarrow>
     (case calibrated_get doc_id wp of
        (Inl e, w1) \<Rightarrow> (Inl e, w1)
      | (Inr snapshot, w1) \<Rightarrow>
          if snapshot \<noteq> None then
            (case print_lines [SkipCalibrated doc_id] w1 of
               (Inl e, w2) \<Rightarrow> (Inl e, w2)
             | (Inr _, w2) \<Rightarrow> (Inr False, w2))
          else if marked_processed data then
            (case print_lines [SkipProcessed doc_id] w1 of
               (Inl e, w2) \<Rightarrow> (Inl e, w2)
             | (Inr _, w2) \<Rightarrow> (Inr False, w2))
          else
            (case prepare_input data of
               Inl e \<Rightarrow> (Inl e, w1)
             | Inr X \<Rightarrow>
            (case model w1 X of
               Inl e \<Rightarrow> (Inl e, w1)
             | Inr rows \<Rightarrow>
            (case item rows 0 of
               Inl e \<Rightarrow> (Inl e, w1)
             | Inr row \<Rightarrow>
            (case calibrated_dict row of
               Inl e \<Rightarrow> (Inl e, w1)
             | Inr cd \<Rightarrow>
            (case calibrated_set doc_id (merged data cd) w1 of
               (Inl e, w2) \<Rightarrow> (Inl e, w2)
             | (Inr _, w2) \<Rightarrow>
            (case raw_update doc_id processed_mark w2 of
               (Inl e, w3) \<Rightarrow> (Inl e, w3)
             | (Inr _, w3) \<Rightarrow>
            (case print_lines [Saved doc_id, SensorLine doc_id, TimestampLine doc_id,
                               OriginalLine doc_id, CalibratedLine doc_id] w3 of
               (Inl e, w4) \<Rightarrow> (Inl e, w4)
             | (Inr _, w4) \<Rightarrow> (Inr True, w4))))))))))"

text \<open>
  The lines of the handlers: one for \<^verbatim>\<open>KeyError\<close>, the message and the traceback
  for every other \<^verbatim>\<open>Exception\<close>.
\<close>

fun handler_lines :: "string \<Rightarrow> error \<Rightarrow> message list" where
  "handler_lines doc_id (KeyError key) = [MissingField doc_id key]"
| "handler_lines doc_id IndexError = [ErrorProcessing doc_id IndexError, Traceback doc_id]"
| "handler_lines doc_id (NotFound i) = [ErrorProcessing doc_id (NotFound i), Traceback doc_id]"
| "handler_lines doc_id Unavailable = [ErrorProcessing doc_id Unavailable, Traceback doc_id]"
| "handler_lines doc_id ModelError = [ErrorProcessing doc_id ModelError, Traceback doc_id]"
| "handler_lines doc_id ConsoleError = [ErrorProcessing doc_id ConsoleError, Traceback doc_id]"

definition process_document_io :: "string \<Rightarrow> doc \<Rightarrow> world \<Rightarrow> (error + bool) \<times> world" where
  "process_document_io doc_id data w =
     (case process_document_io_try doc_id data (emit (ProcessDocument doc_id data) w) of
        (Inr success, w1) \<Rightarrow> (Inr success, w1)
      | (Inl e, w1) \<Rightarrow>
          (case print_lines (handler_lines doc_id e) w1 of
             (Inl e', w2) \<Rightarrow> (Inl e', w2)
           | (Inr _, w2) \<Rightarrow> (Inr False, w2)))"

text \<open>A console on which no coming write fails.\<close>

definition console_works :: "world \<Rightarrow> bool" where
  "console_works w = (True \<notin> set (console w))"

section \<open>The Change Reconciler\<close>

text \<open>
  \<^verbatim>\<open>get_latest_document_by_timestamp\<close> and \<^verbatim>\<open>get_current_latest_document\<close>: the
  first document of the stream, \<^verbatim>\<open>None\<close> when there is none or the query raised.
\<close>

definition get_latest_document_by_timestamp :: "world \<Rightarrow> (string \<times> doc) option \<times> world" where
  "get_latest_document_by_timestamp w =
     (case stream_latest w of
        (Inl e, w1) \<Rightarrow> (None, w1)
      | (Inr docs, w1) \<Rightarrow> (case docs of [] \<Rightarrow> (None, w1) | latest_doc # _ \<Rightarrow> (Some latest_doc, w1)))"

definition get_current_latest_document :: "world \<Rightarrow> (string \<times> doc) option \<times> world" where
  "get_current_latest_document w =
     (case stream_latest w of
        (Inl e, w1) \<Rightarrow> (None, w1)
      | (Inr docs, w1) \<Rightarrow> (case docs of [] \<Rightarrow> (None, w1) | doc # _ \<Rightarrow> (Some doc, w1)))"

text \<open>
  Assignments to the two reconciler globals, and \<^verbatim>\<open>with processing_lock\<close>. A callback
  waits at the \<^verbatim>\<open>with\<close> statement until the lock is free; \<open>acquire\<close> is the moment it
  gets the lock, \<open>release\<close> the end of the block.
\<close>

definition assign_initial_snapshot_received :: "bool \<Rightarrow> world \<Rightarrow> world" where
  "assign_initial_snapshot_received b w =
     emit (Assigned InitialSnapshotReceived (lock_held w)) (w\<lparr>initial_snapshot_received := b\<rparr>)"

definition assign_last_processed_doc_id :: "string \<Rightarrow> world \<Rightarrow> world" where
  "assign_last_processed_doc_id doc_id w =
     emit (Assigned LastProcessedDocId (lock_held w)) (w\<lparr>last_processed_doc_id := Some doc_id\<rparr>)"

definition acquire :: "world \<Rightarrow> world" where
  "acquire w = w\<lparr>lock_held := True\<rparr>"

definition release :: "world \<Rightarrow> world" where
  "release w = w\<lparr>lock_held := False\<rparr>"

datatype change_type = ADDED | MODIFIED | REMOVED

type_synonym change = "change_type \<times> string"

text \<open>The statements of \<^verbatim>\<open>on_snapshot\<close> inside the lock, up to the query.\<close>

definition enter_critical_section :: "change list \<Rightarrow> world \<Rightarrow> world" where
  "enter_critical_section changes w = emit (Printed (ChangeDetected (length changes))) (acquire w)"

definition on_snapshot :: "(string \<times> doc) list \<Rightarrow> change list \<Rightarrow> nat \<Rightarrow> world \<Rightarrow> world" where
  "on_snapshot doc_snapshot changes read_time w =
     (if \<not> initial_snapshot_received w then
        emit (Printed (InitialSnapshot (length changes))) (assign_initial_snapshot_received True w)
      else
        (case get_latest_document_by_timestamp (enter_critical_section changes w) of
           (None, w2) \<Rightarrow> release w2
         | (Some (doc_id, data), w2) \<Rightarrow>
             if Some doc_id \<noteq> last_processed_doc_id w2 then
               (case process_document doc_id data w2 of
                  (success, w3) \<Rightarrow>
                    if success then release (assign_last_processed_doc_id doc_id w3)
                    else release w3)
             else release (emit (Printed (AlreadyProcessed doc_id)) w2)))"

text \<open>
  \<^verbatim>\<open>start_listener\<close> up to its final loop: the baseline, then the subscription. The
  watch reports its failures on its own thread, not to this call.
\<close>

definition subscribe :: "world \<Rightarrow> world" where
  "subscribe w = emit Subscribed (w\<lparr>watches := Suc (watches w)\<rparr>)"

definition start_listener_setup :: "world \<Rightarrow> world" where
  "start_listener_setup w =
     (case get_current_latest_document w of
        (Some (doc_id, data), w1) \<Rightarrow> subscribe (assign_last_processed_doc_id doc_id w1)
      | (None, w1) \<Rightarrow> subscribe w1)"

text \<open>
  \<^verbatim>\<open>while True: time.sleep(1)\<close>. The \<^verbatim>\<open>KeyboardInterrupt\<close> handler around it is not
  modelled: Python raises that exception in the main thread only, and
  \<^verbatim>\<open>start_listener\<close> runs on the thread that \<^verbatim>\<open>start_worker\<close> starts.
\<close>

definition sleep :: "nat \<Rightarrow> world \<Rightarrow> world" where
  "sleep seconds w = w"

partial_function (option) keep_running :: "world \<Rightarrow> world option" where
  "keep_running w = (if True then keep_running (sleep 1 w) else Some w)"

definition start_listener :: "world \<Rightarrow> world option" where
  "start_listener w = keep_running (start_listener_setup w)"

text \<open>
  What a started thread does. Calling its target is calling \<^verbatim>\<open>start_listener\<close>.
  Seen from the other threads it advances in steps: a thread that has not yet run
  executes \<^verbatim>\<open>start_listener\<close> up to the loop, a thread in the loop sleeps once more.
\<close>

fun call :: "callable \<Rightarrow> world \<Rightarrow> world option" where
  "call Start_listener w = start_listener w"

definition set_progress :: "nat \<Rightarrow> progress \<Rightarrow> world \<Rightarrow> world" where
  "set_progress t p w =
     w\<lparr>started_threads := (started_threads w)[t := (started_threads w ! t)\<lparr>progress := p\<rparr>]\<rparr>"

definition run_thread :: "nat \<Rightarrow> world \<Rightarrow> world" where
  "run_thread t w =
     (if t < length (started_threads w) then
        (case target (started_threads w ! t) of
           Start_listener \<Rightarrow>
             (case progress (started_threads w ! t) of
                Ready \<Rightarrow> set_progress t Looping (start_listener_setup w)
              | Looping \<Rightarrow> sleep 1 w))
      else w)"

section \<open>The Worker Lifecycle Controller\<close>

definition start_worker :: "world \<Rightarrow> string \<times> world" where
  "start_worker w =
     (if running w then (''Worker already running'', w)
      else (''Worker started'',
            emit ThreadStarted
              (w\<lparr>running := True, worker_thread := Some (threads w), threads := Suc (threads w),
                 started_threads := started_threads w @
                   [\<lparr>target = Start_listener, daemon = True, progress = Ready\<rparr>]\<rparr>)))"

definition stop_worker :: "world \<Rightarrow> string \<times> world" where
  "stop_worker w = (''Worker stopping'', w\<lparr>running := False\<rparr>)"

section \<open>Runs of the service\<close>

text \<open>
  What can happen to a running service, one step at a time: the store delivers a batch to
  the callback, a listener thread runs \<^verbatim>\<open>start_listener\<close> up to its loop, the
  control surface starts or stops the worker, the ingestion path (outside this
  program) creates or overwrites a raw reading, and a started thread advances.
\<close>

datatype action =
    Snapshot "(string \<times> doc) list" "change list" nat
  | ListenerSetup
  | StartWorker
  | StopWorker
  | Ingest string doc
  | RunThread nat

fun step :: "action \<Rightarrow> world \<Rightarrow> world" where
  "step (Snapshot doc_snapshot changes read_time) w = on_snapshot doc_snapshot changes read_time w"
| "step ListenerSetup w = start_listener_setup w"
| "step StartWorker w = snd (start_worker w)"
| "step StopWorker w = snd (stop_worker w)"
| "step (Ingest doc_id data) w = store_raw doc_id data w"
| "step (RunThread t) w = run_thread t w"


fun run :: "action list \<Rightarrow> world \<Rightarrow> world" where
  "run [] w = w"
| "run (a # as) w = run as (step a w)"

section \<open>Observations on traces and collections\<close>

fun is_write :: "event \<Rightarrow> bool" where
  "is_write (CalibratedSet i d) = True"
| "is_write (RawUpdate i d) = True"
| "is_write (Printed m) = False"
| "is_write Queried = False"
| "is_write (CalibratedGet i) = False"
| "is_write (ProcessDocument i d) = False"
| "is_write (Assigned v b) = False"
| "is_write Subscribed = False"
| "is_write ThreadStarted = False"

fun is_process_call :: "event \<Rightarrow> bool" where
  "is_process_call (ProcessDocument i d) = True"
| "is_process_call (CalibratedSet i d) = False"
| "is_process_call (RawUpdate i d) = False"
| "is_process_call (Printed m) = False"
| "is_process_call Queried = False"
| "is_process_call (CalibratedGet i) = False"
| "is_process_call (Assigned v b) = False"
| "is_process_call Subscribed = False"
| "is_process_call ThreadStarted = False"

fun is_assignment :: "event \<Rightarrow> bool" where
  "is_assignment (Assigned v b) = True"
| "is_assignment (ProcessDocument i d) = False"
| "is_assignment (CalibratedSet i d) = False"
| "is_assignment (RawUpdate i d) = False"
| "is_assignment (Printed m) = False"
| "is_assignment Queried = False"
| "is_assignment (CalibratedGet i) = False"
| "is_assignment Subscribed = False"
| "is_assignment ThreadStarted = False"

text \<open>
  An order on field values fit for \<^verbatim>\<open>order_by\<close>: asymmetric, and incomparability is
  transitive (a strict weak order, as the store's order on timestamps is).
\<close>

definition orders_values :: "(val \<Rightarrow> val \<Rightarrow> bool) \<Rightarrow> bool" where
  "orders_values before =
     ((\<forall>a b. before a b \<longrightarrow> \<not> before b a)
      \<and> (\<forall>a b c. \<not> before a b \<and> \<not> before b c \<longrightarrow> \<not> before a c))"

text \<open>The latest-by-timestamp query, answered, returns the document with this id.\<close>

definition latest_is :: "string \<Rightarrow> world \<Rightarrow> bool" where
  "latest_is doc_id w =
     (case order_by_timestamp_desc_limit_1 (ts_less w) (raw w) of
        [] \<Rightarrow> False
      | latest_doc # rest \<Rightarrow> fst latest_doc = doc_id)"

text \<open>... and this holds before and after every step of a run.\<close>

fun stays_latest :: "string \<Rightarrow> action list \<Rightarrow> world \<Rightarrow> bool" where
  "stays_latest doc_id [] w = latest_is doc_id w"
| "stays_latest doc_id (a # as) w = (latest_is doc_id w \<and> stays_latest doc_id as (step a w))"

text \<open>The number of documents a collection holds under an id.\<close>

definition documents_at :: "string \<Rightarrow> (string \<times> doc) list \<Rightarrow> nat" where
  "documents_at doc_id coll = length (filter (\<lambda>entry. fst entry = doc_id) coll)"

section \<open>A concrete service\<close>

text \<open>
  The end-to-end scenario of the specification: reading \<open>r1\<close>, a model that answers
  with one row of five numbers, timestamps compared as numbers, and the state of a freshly
  imported module over an empty project.
\<close>

definition example_data :: doc where
  "example_data = map_of
     [(''N'', VInt 10), (''P'', VInt 5), (''K'', VInt 8), (''pH'', VFloat (Finite (31 / 5))),
      (''Conductivity'', VInt 300), (''timestamp'', VTimestamp 7)]"

definition example_model :: "val list \<Rightarrow> error + pyfloat list list" where
  "example_model X =
     Inr [[Finite (56 / 5), Finite (27 / 5), Finite (81 / 10), Finite 6, Finite (621 / 2)]]"

text \<open>The same reading without its channel \<open>N\<close>, and that one marked processed.\<close>

definition reading_without_N :: doc where
  "reading_without_N = map_of
     [(''P'', VInt 5), (''K'', VInt 8), (''pH'', VFloat (Finite (31 / 5))),
      (''Conductivity'', VInt 300), (''timestamp'', VTimestamp 7)]"

definition marked_reading_without_N :: doc where
  "marked_reading_without_N = map_of
     [(''P'', VInt 5), (''K'', VInt 8), (''pH'', VFloat (Finite (31 / 5))),
      (''Conductivity'', VInt 300), (''timestamp'', VTimestamp 7), (''processed'', VBool True)]"

fun timestamp_less :: "val \<Rightarrow> val \<Rightarrow> bool" where
  "timestamp_less (VTimestamp a) (VTimestamp b) = (a < b)"
| "timestamp_less a b = False"

definition example_world :: world where
  "example_world =
     \<lparr>raw = [], calibrated = [], server_time = 1000, ts_less = timestamp_less, faults = [],
      model = example_model, last_processed_doc_id = None, initial_snapshot_received = False,
      lock_held = False, worker_thread = None, running = False, threads = 0, watches = 0,
      trace = [], console = [], started_threads = []\<rparr>"

section \<open>Basic facts\<close>

subsection \<open>The state transformers, field by field\<close>

lemma emit_fields [simp]:
  "raw (emit e w) = raw w"
  "calibrated (emit e w) = calibrated w"
  "server_time (emit e w) = server_time w"
  "ts_less (emit e w) = ts_less w"
  "faults (emit e w) = faults w"
  "model (emit e w) = model w"
  "last_processed_doc_id (emit e w) = last_processed_doc_id w"
  "initial_snapshot_received (emit e w) = initial_snapshot_received w"
  "lock_held (emit e w) = lock_held w"
  "worker_thread (emit e w) = worker_thread w"
  "running (emit e w) = running w"
  "threads (emit e w) = threads w"
  "watches (emit e w) = watches w"
  "trace (emit e w) = trace w @ [e]"
  "console (emit e w) = console w"
  "started_threads (emit e w) = started_threads w"
  "fails (emit e w) = fails w"
  "console_fails (emit e w) = console_fails w"
  "console_works (emit e w) = console_works w"
  by (simp_all add: emit_def fails_def console_fails_def console_works_def)

lemma consume_fields [simp]:
  "raw (consume w) = raw w"
  "calibrated (consume w) = calibrated w"
  "server_time (consume w) = server_time w"
  "ts_less (consume w) = ts_less w"
  "faults (consume w) = tl (faults w)"
  "model (consume w) = model w"
  "last_processed_doc_id (consume w) = last_processed_doc_id w"
  "initial_snapshot_received (consume w) = initial_snapshot_received w"
  "lock_held (consume w) = lock_held w"
  "worker_thread (consume w) = worker_thread w"
  "running (consume w) = running w"
  "threads (consume w) = threads w"
  "watches (consume w) = watches w"
  "trace (consume w) = trace w"
  "console (consume w) = console w"
  "started_threads (consume w) = started_threads w"
  "console_fails (consume w) = console_fails w"
  "console_works (consume w) = console_works w"
  by (simp_all add: consume_def console_fails_def console_works_def)

lemma advance_console_fields [simp]:
  "raw (advance_console w) = raw w"
  "calibrated (advance_console w) = calibrated w"
  "server_time (advance_console w) = server_time w"
  "ts_less (advance_console w) = ts_less w"
  "faults (advance_console w) = faults w"
  "model (advance_console w) = model w"
  "last_processed_doc_id (advance_console w) = last_processed_doc_id w"
  "initial_snapshot_received (advance_console w) = initial_snapshot_received w"
  "lock_held (advance_console w) = lock_held w"
  "worker_thread (advance_console w) = worker_thread w"
  "running (advance_console w) = running w"
  "threads (advance_console w) = threads w"
  "watches (advance_console w) = watches w"
  "trace (advance_console w) = trace w"
  "console (advance_console w) = tl (console w)"
  "started_threads (advance_console w) = started_threads w"
  "fails (advance_console w) = fails w"
  by (simp_all add: advance_console_def fails_def)

lemma store_calibrated_fields [simp]:
  "raw (store_calibrated i d w) = raw w"
  "calibrated (store_calibrated i d w) = AList.update i d (calibrated w)"
  "server_time (store_calibrated i d w) = server_time w"
  "ts_less (store_calibrated i d w) = ts_less w"
  "faults (store_calibrated i d w) = faults w"
  "model (store_calibrated i d w) = model w"
  "last_processed_doc_id (store_calibrated i d w) = last_processed_doc_id w"
  "initial_snapshot_received (store_calibrated i d w) = initial_snapshot_received w"
  "lock_held (store_calibrated i d w) = lock_held w"
  "worker_thread (store_calibrated i d w) = worker_thread w"
  "running (store_calibrated i d w) = running w"
  "threads (store_calibrated i d w) = threads w"
  "watches (store_calibrated i d w) = watches w"
  "trace (store_calibrated i d w) = trace w"
  "console (store_calibrated i d w) = console w"
  "started_threads (store_calibrated i d w) = started_threads w"
  "fails (store_calibrated i d w) = fails w"
  "console_fails (store_calibrated i d w) = console_fails w"
  "console_works (store_calibrated i d w) = console_works w"
  by (simp_all add: store_calibrated_def fails_def console_fails_def console_works_def)

lemma store_raw_fields [simp]:
  "raw (store_raw i d w) = AList.update i d (raw w)"
  "calibrated (store_raw i d w) = calibrated w"
  "server_time (store_raw i d w) = server_time w"
  "ts_less (store_raw i d w) = ts_less w"
  "faults (store_raw i d w) = faults w"
  "model (store_raw i d w) = model w"
  "last_processed_doc_id (store_raw i d w) = last_processed_doc_id w"
  "initial_snapshot_received (store_raw i d w) = initial_snapshot_received w"
  "lock_held (store_raw i d w) = lock_held w"
  "worker_thread (store_raw i d w) = worker_thread w"
  "running (store_raw i d w) = running w"
  "threads (store_raw i d w) = threads w"
  "watches (store_raw i d w) = watches w"
  "trace (store_raw i d w) = trace w"
  "console (store_raw i d w) = console w"
  "started_threads (store_raw i d w) = started_threads w"
  "fails (store_raw i d w) = fails w"
  "console_fails (store_raw i d w) = console_fails w"
  "console_works (store_raw i d w) = console_works w"
  by (simp_all add: store_raw_def fails_def console_fails_def console_works_def)

lemma acquire_fields [simp]:
  "raw (acquire w) = raw w"
  "calibrated (acquire w) = calibrated w"
  "server_time (acquire w) = server_time w"
  "ts_less (acquire w) = ts_less w"
  "faults (acquire w) = faults w"
  "model (acquire w) = model w"
  "last_processed_doc_id (acquire w) = last_processed_doc_id w"
  "initial_snapshot_received (acquire w) = initial_snapshot_received w"
  "lock_held (acquire w) = True"
  "worker_thread (acquire w) = worker_thread w"
  "running (acquire w) = running w"
  "threads (acquire w) = threads w"
  "watches (acquire w) = watches w"
  "trace (acquire w) = trace w"
  "console (acquire w) = console w"
  "started_threads (acquire w) = started_threads w"
  "fails (acquire w) = fails w"
  "console_fails (acquire w) = console_fails w"
  "console_works (acquire w) = console_works w"
  by (simp_all add: acquire_def fails_def console_fails_def console_works_def)

lemma release_fields [simp]:
  "raw (release w) = raw w"
  "calibrated (release w) = calibrated w"
  "server_time (release w) = server_time w"
  "ts_less (release w) = ts_less w"
  "faults (release w) = faults w"
  "model (release w) = model w"
  "last_processed_doc_id (release w) = last_processed_doc_id w"
  "initial_snapshot_received (release w) = initial_snapshot_received w"
  "lock_held (release w) = False"
  "worker_thread (release w) = worker_thread w"
  "running (release w) = running w"
  "threads (release w) = threads w"
  "watches (release w) = watches w"
  "trace (release w) = trace w"
  "console (release w) = console w"
  "started_threads (release w) = started_threads w"
  "fails (release w) = fails w"
  "console_fails (release w) = console_fails w"
  "console_works (release w) = console_works w"
  by (simp_all add: release_def fails_def console_fails_def console_works_def)

lemma assign_initial_snapshot_received_fields [simp]:
  "raw (assign_initial_snapshot_received b w) = raw w"
  "calibrated (assign_initial_snapshot_received b w) = calibrated w"
  "server_time (assign_initial_snapshot_received b w) = server_time w"
  "ts_less (assign_initial_snapshot_received b w) = ts_less w"
  "faults (assign_initial_snapshot_received b w) = faults w"
  "model (assign_initial_snapshot_received b w) = model w"
  "last_processed_doc_id (assign_initial_snapshot_received b w) = last_processed_doc_id w"
  "initial_snapshot_received (assign_initial_snapshot_received b w) = b"
  "lock_held (assign_initial_snapshot_received b w) = lock_held w"
  "worker_thread (assign_initial_snapshot_received b w) = worker_thread w"
  "running (assign_initial_snapshot_received b w) = running w"
  "threads (assign_initial_snapshot_received b w) = threads w"
  "watches (assign_initial_snapshot_received b w) = watches w"
  "trace (assign_initial_snapshot_received b w) = trace w @ [Assigned InitialSnapshotReceived (lock_held w)]"
  "console (assign_initial_snapshot_received b w) = console w"
  "started_threads (assign_initial_snapshot_received b w) = started_threads w"
  "fails (assign_initial_snapshot_received b w) = fails w"
  "console_fails (assign_initial_snapshot_received b w) = console_fails w"
  "console_works (assign_initial_snapshot_received b w) = console_works w"
  by (simp_all add: assign_initial_snapshot_received_def fails_def console_fails_def console_works_def)

lemma assign_last_processed_doc_id_fields [simp]:
  "raw (assign_last_processed_doc_id i w) = raw w"
  "calibrated (assign_last_processed_doc_id i w) = calibrated w"
  "server_time (assign_last_processed_doc_id i w) = server_time w"
  "ts_less (assign_last_processed_doc_id i w) = ts_less w"
  "faults (assign_last_processed_doc_id i w) = faults w"
  "model (assign_last_processed_doc_id i w) = model w"
  "last_processed_doc_id (assign_last_processed_doc_id i w) = Some i"
  "initial_snapshot_received (assign_last_processed_doc_id i w) = initial_snapshot_received w"
  "lock_held (assign_last_processed_doc_id i w) = lock_held w"
  "worker_thread (assign_last_processed_doc_id i w) = worker_thread w"
  "running (assign_last_processed_doc_id i w) = running w"
  "threads (assign_last_processed_doc_id i w) = threads w"
  "watches (assign_last_processed_doc_id i w) = watches w"
  "trace (assign_last_processed_doc_id i w) = trace w @ [Assigned LastProcessedDocId (lock_held w)]"
  "console (assign_last_processed_doc_id i w) = console w"
  "started_threads (assign_last_processed_doc_id i w) = started_threads w"
  "fails (assign_last_processed_doc_id i w) = fails w"
  "console_fails (assign_last_processed_doc_id i w) = console_fails w"
  "console_works (assign_last_processed_doc_id i w) = console_works w"
  by (simp_all add: assign_last_processed_doc_id_def fails_def console_fails_def console_works_def)

lemma subscribe_fields [simp]:
  "raw (subscribe w) = raw w"
  "calibrated (subscribe w) = calibrated w"
  "server_time (subscribe w) = server_time w"
  "ts_less (subscribe w) = ts_less w"
  "faults (subscribe w) = faults w"
  "model (subscribe w) = model w"
  "last_processed_doc_id (subscribe w) = last_processed_doc_id w"
  "initial_snapshot_received (subscribe w) = initial_snapshot_received w"
  "lock_held (subscribe w) = lock_held w"
  "worker_thread (subscribe w) = worker_thread w"
  "running (subscribe w) = running w"
  "threads (subscribe w) = threads w"
  "watches (subscribe w) = Suc (watches w)"
  "trace (subscribe w) = trace w @ [Subscribed]"
  "console (subscribe w) = console w"
  "started_threads (subscribe w) = started_threads w"
  "fails (subscribe w) = fails w"
  "console_fails (subscribe w) = console_fails w"
  "console_works (subscribe w) = console_works w"
  by (simp_all add: subscribe_def fails_def console_fails_def console_works_def)

lemma enter_critical_section_fields [simp]:
  "raw (enter_critical_section cs w) = raw w"
  "calibrated (enter_critical_section cs w) = calibrated w"
  "server_time (enter_critical_section cs w) = server_time w"
  "ts_less (enter_critical_section cs w) = ts_less w"
  "faults (enter_critical_section cs w) = faults w"
  "model (enter_critical_section cs w) = model w"
  "last_processed_doc_id (enter_critical_section cs w) = last_processed_doc_id w"
  "initial_snapshot_received (enter_critical_section cs w) = initial_snapshot_received w"
  "lock_held (enter_critical_section cs w) = True"
  "worker_thread (enter_critical_section cs w) = worker_thread w"
  "running (enter_critical_section cs w) = running w"
  "threads (enter_critical_section cs w) = threads w"
  "watches (enter_critical_section cs w) = watches w"
  "trace (enter_critical_section cs w) = trace w @ [Printed (ChangeDetected (length cs))]"
  "console (enter_critical_section cs w) = console w"
  "started_threads (enter_critical_section cs w) = started_threads w"
  "fails (enter_critical_section cs w) = fails w"
  "console_fails (enter_critical_section cs w) = console_fails w"
  "console_works (enter_critical_section cs w) = console_works w"
  by (simp_all add: enter_critical_section_def)

lemma set_progress_fields [simp]:
  "raw (set_progress t p w) = raw w"
  "calibrated (set_progress t p w) = calibrated w"
  "server_time (set_progress t p w) = server_time w"
  "ts_less (set_progress t p w) = ts_less w"
  "faults (set_progress t p w) = faults w"
  "model (set_progress t p w) = model w"
  "last_processed_doc_id (set_progress t p w) = last_processed_doc_id w"
  "initial_snapshot_received (set_progress t p w) = initial_snapshot_received w"
  "lock_held (set_progress t p w) = lock_held w"
  "worker_thread (set_progress t p w) = worker_thread w"
  "running (set_progress t p w) = running w"
  "threads (set_progress t p w) = threads w"
  "watches (set_progress t p w) = watches w"
  "trace (set_progress t p w) = trace w"
  "console (set_progress t p w) = console w"
  "started_threads (set_progress t p w) = (started_threads w)[t := (started_threads w ! t)\<lparr>progress := p\<rparr>]"
  "fails (set_progress t p w) = fails w"
  "console_fails (set_progress t p w) = console_fails w"
  "console_works (set_progress t p w) = console_works w"
  by (simp_all add: set_progress_def fails_def console_fails_def console_works_def)

lemma new_events_append: "trace w' = trace w @ es \<Longrightarrow> new_events w w' = es"
  by (simp add: new_events_def)

lemma new_events_self [simp]: "new_events w w = []"
  by (simp add: new_events_def)

lemmas processor_defs = process_document_def process_document_try_def calibrated_get_def
  calibrated_set_def raw_update_def


subsection \<open>What the Document Processor leaves alone\<close>

lemma process_document_frame [simp]:
  "last_processed_doc_id (snd (process_document i d w)) = last_processed_doc_id w"
  "initial_snapshot_received (snd (process_document i d w)) = initial_snapshot_received w"
  "lock_held (snd (process_document i d w)) = lock_held w"
  "worker_thread (snd (process_document i d w)) = worker_thread w"
  "running (snd (process_document i d w)) = running w"
  "threads (snd (process_document i d w)) = threads w"
  "watches (snd (process_document i d w)) = watches w"
  "model (snd (process_document i d w)) = model w"
  "ts_less (snd (process_document i d w)) = ts_less w"
  "server_time (snd (process_document i d w)) = server_time w"
  by (simp_all add: processor_defs split: sum.splits option.splits)

lemma process_document_trace:
  "\<exists>es. trace (snd (process_document i d w)) = trace w @ ProcessDocument i d # es
     \<and> (\<forall>e \<in> set es. \<not> is_assignment e \<and> \<not> is_process_call e \<and> e \<noteq> Queried \<and> e \<noteq> Subscribed
           \<and> e \<noteq> ThreadStarted)"
  by (simp add: processor_defs split: sum.splits option.splits)

lemma process_document_extends:
  "trace (snd (process_document i d w)) = trace w @ new_events w (snd (process_document i d w))"
  using process_document_trace[of i d w] by (auto simp: new_events_append)

lemma process_document_new_events:
  "\<exists>es. new_events w (snd (process_document i d w)) = ProcessDocument i d # es
     \<and> (\<forall>e \<in> set es. \<not> is_assignment e \<and> \<not> is_process_call e \<and> e \<noteq> Queried \<and> e \<noteq> Subscribed
           \<and> e \<noteq> ThreadStarted)"
  using process_document_trace[of i d w] by (auto simp: new_events_append)

subsection \<open>The latest-document query\<close>

lemma get_current_latest_document_eq:
  "get_current_latest_document w = get_latest_document_by_timestamp w"
  by (simp add: get_current_latest_document_def get_latest_document_by_timestamp_def)

lemma get_latest_fields [simp]:
  "raw (snd (get_latest_document_by_timestamp w)) = raw w"
  "calibrated (snd (get_latest_document_by_timestamp w)) = calibrated w"
  "server_time (snd (get_latest_document_by_timestamp w)) = server_time w"
  "ts_less (snd (get_latest_document_by_timestamp w)) = ts_less w"
  "faults (snd (get_latest_document_by_timestamp w)) = tl (faults w)"
  "model (snd (get_latest_document_by_timestamp w)) = model w"
  "last_processed_doc_id (snd (get_latest_document_by_timestamp w)) = last_processed_doc_id w"
  "initial_snapshot_received (snd (get_latest_document_by_timestamp w)) = initial_snapshot_received w"
  "lock_held (snd (get_latest_document_by_timestamp w)) = lock_held w"
  "worker_thread (snd (get_latest_document_by_timestamp w)) = worker_thread w"
  "running (snd (get_latest_document_by_timestamp w)) = running w"
  "threads (snd (get_latest_document_by_timestamp w)) = threads w"
  "watches (snd (get_latest_document_by_timestamp w)) = watches w"
  "trace (snd (get_latest_document_by_timestamp w)) = trace w @ [Queried]"
  by (simp_all add: get_latest_document_by_timestamp_def stream_latest_def split: list.splits)

lemma get_latest_result:
  "fst (get_latest_document_by_timestamp w) =
     (if fails w then None
      else case order_by_timestamp_desc_limit_1 (ts_less w) (raw w) of
             [] \<Rightarrow> None | latest_doc # rest \<Rightarrow> Some latest_doc)"
  by (simp add: get_latest_document_by_timestamp_def stream_latest_def split: list.splits)

lemma get_latest_enter_critical_section [simp]:
  "fst (get_latest_document_by_timestamp (enter_critical_section cs w)) =
     fst (get_latest_document_by_timestamp w)"
  by (simp add: get_latest_result)

subsection \<open>The callback\<close>

lemma on_snapshot_initial:
  "\<not> initial_snapshot_received w \<Longrightarrow>
     on_snapshot ds cs rt w =
       emit (Printed (InitialSnapshot (length cs))) (assign_initial_snapshot_received True w)"
  by (simp add: on_snapshot_def)

lemma on_snapshot_later:
  "initial_snapshot_received w \<Longrightarrow>
     on_snapshot ds cs rt w =
       (let q = get_latest_document_by_timestamp (enter_critical_section cs w) in
        case fst q of
          None \<Rightarrow> release (snd q)
        | Some latest_doc \<Rightarrow>
            if Some (fst latest_doc) \<noteq> last_processed_doc_id w then
              (let p = process_document (fst latest_doc) (snd latest_doc) (snd q) in
               if fst p then release (assign_last_processed_doc_id (fst latest_doc) (snd p))
               else release (snd p))
            else release (emit (Printed (AlreadyProcessed (fst latest_doc))) (snd q)))"
  by (simp add: on_snapshot_def case_prod_beta Let_def split: option.splits)

lemma on_snapshot_seen [simp]: "initial_snapshot_received (on_snapshot ds cs rt w)"
  by (cases "initial_snapshot_received w")
     (simp_all add: on_snapshot_initial on_snapshot_later Let_def split: option.splits)

lemma start_listener_setup_seen [simp]:
  "initial_snapshot_received (start_listener_setup w) = initial_snapshot_received w"
  by (simp add: start_listener_setup_def get_current_latest_document_eq case_prod_beta
      split: option.splits)

lemma step_keeps_seen: "initial_snapshot_received w \<Longrightarrow> initial_snapshot_received (step a w)"
  by (cases a)
     (simp_all add: start_worker_def stop_worker_def run_thread_def sleep_def
        split: callable.splits progress.splits)

lemma run_keeps_seen: "initial_snapshot_received w \<Longrightarrow> initial_snapshot_received (run acts w)"
  by (induction acts arbitrary: w) (simp_all add: step_keeps_seen)

lemma on_snapshot_later_queries:
  "initial_snapshot_received w \<Longrightarrow>
     \<exists>es. trace (on_snapshot ds cs rt w) =
       trace w @ Printed (ChangeDetected (length cs)) # Queried # es"
  by (simp add: on_snapshot_later Let_def process_document_extends split: option.splits)

section \<open>Initial snapshot suppression\<close>

text \<open>
  Claim C1. Whenever the snapshot callback runs while \<open>initial_snapshot_received\<close> is
  false, it sets the flag and returns: it sends no request to the store (the failure
  schedule is untouched and the only new events are the assignment and the console line),
  it does not call the Document Processor, and it leaves \<open>last_processed_doc_id\<close> and
  both collections as they are, whatever the batch holds. After that callback the flag
  stays true along every run of the service, and a callback that finds the flag true is
  not discarded: it goes on to query the store.
\<close>

theorem initial_snapshot_is_discarded:
  "(\<not> initial_snapshot_received w \<longrightarrow>
      initial_snapshot_received (on_snapshot ds cs rt w)
    \<and> last_processed_doc_id (on_snapshot ds cs rt w) = last_processed_doc_id w
    \<and> raw (on_snapshot ds cs rt w) = raw w
    \<and> calibrated (on_snapshot ds cs rt w) = calibrated w
    \<and> faults (on_snapshot ds cs rt w) = faults w
    \<and> new_events w (on_snapshot ds cs rt w) =
        [Assigned InitialSnapshotReceived (lock_held w), Printed (InitialSnapshot (length cs))])
   \<and> initial_snapshot_received (run acts (on_snapshot ds cs rt w))
   \<and> (initial_snapshot_received w \<longrightarrow> Queried \<in> set (new_events w (on_snapshot ds cs rt w)))"
proof (intro conjI impI)
  assume "initial_snapshot_received w"
  from on_snapshot_later_queries[OF this, of ds cs rt]
  obtain es where "trace (on_snapshot ds cs rt w) =
      trace w @ Printed (ChangeDetected (length cs)) # Queried # es" by blast
  then show "Queried \<in> set (new_events w (on_snapshot ds cs rt w))"
    by (simp add: new_events_append)
qed (simp_all add: on_snapshot_initial run_keeps_seen new_events_append)

theorem initial_snapshot_is_discarded_witness:
  "\<not> initial_snapshot_received example_world
   \<and> initial_snapshot_received (on_snapshot [(''r1'', example_data)] [(ADDED, ''r1'')] 5 example_world)
   \<and> trace (on_snapshot [(''r1'', example_data)] [(ADDED, ''r1'')] 5 example_world) =
       [Assigned InitialSnapshotReceived False, Printed (InitialSnapshot 1)]
   \<and> Queried \<in> set (trace (on_snapshot [] [] 6
        (on_snapshot [(''r1'', example_data)] [(ADDED, ''r1'')] 5 example_world)))"
proof -
  let ?w1 = "on_snapshot [(''r1'', example_data)] [(ADDED, ''r1'')] 5 example_world"
  have a: "\<not> initial_snapshot_received example_world" and l: "\<not> lock_held example_world"
    and t: "trace example_world = []"
    by (simp_all add: example_world_def)
  note first = initial_snapshot_is_discarded[of example_world "[(''r1'', example_data)]"
      "[(ADDED, ''r1'')]" 5 "[]"]
  note second = initial_snapshot_is_discarded[of ?w1 "[]" "[]" 6 "[]"]
  have seen: "initial_snapshot_received ?w1" using first a by simp
  have tr: "trace ?w1 = [Assigned InitialSnapshotReceived False, Printed (InitialSnapshot 1)]"
    using first a l t by (simp add: new_events_def)
  have "Queried \<in> set (new_events ?w1 (on_snapshot [] [] 6 ?w1))" using second seen by simp
  then have "Queried \<in> set (trace (on_snapshot [] [] 6 ?w1))"
    by (auto simp: new_events_def dest: in_set_dropD)
  with a seen tr show ?thesis by simp
qed

lemmas processor_eval = processor_defs prepare_input_def required_def item_def calibrated_dict_def
  merged_def processed_mark_def marked_processed_def fails_def

lemma filter_none: "\<forall>e \<in> set es. \<not> P e \<Longrightarrow> filter P es = []"
  by (induction es) auto

section \<open>Reconciling a batch with the latest document\<close>

text \<open>
  Claim C2. For a batch handled after the initial snapshot, let \<open>doc_id\<close> and \<open>data\<close> be
  the document that the fresh latest-by-timestamp query returns. If \<open>doc_id\<close> equals
  \<open>last_processed_doc_id\<close>, nothing is done: no call of the Document Processor, no write,
  no assignment. Otherwise the Document Processor is called exactly once, on
  \<open>(doc_id, data)\<close>; \<open>last_processed_doc_id\<close> becomes \<open>doc_id\<close> when it reports success
  and keeps its value when it reports failure.
\<close>

theorem reconcile_latest:
  assumes "initial_snapshot_received w"
    and "fst (get_latest_document_by_timestamp w) = Some (doc_id, data)"
  shows "let w' = on_snapshot ds cs rt w;
             wq = snd (get_latest_document_by_timestamp (enter_critical_section cs w));
             p = process_document doc_id data wq
         in (Some doc_id = last_processed_doc_id w \<longrightarrow>
               last_processed_doc_id w' = last_processed_doc_id w
             \<and> raw w' = raw w \<and> calibrated w' = calibrated w
             \<and> new_events w w' = [Printed (ChangeDetected (length cs)), Queried,
                                   Printed (AlreadyProcessed doc_id)])
          \<and> (Some doc_id \<noteq> last_processed_doc_id w \<longrightarrow>
               filter is_process_call (new_events w w') = [ProcessDocument doc_id data]
             \<and> raw w' = raw (snd p) \<and> calibrated w' = calibrated (snd p)
             \<and> (fst p \<longrightarrow> last_processed_doc_id w' = Some doc_id)
             \<and> (\<not> fst p \<longrightarrow> last_processed_doc_id w' = last_processed_doc_id w))"
proof -
  let ?q = "get_latest_document_by_timestamp (enter_critical_section cs w)"
  let ?p = "process_document doc_id data (snd ?q)"
  have q: "fst ?q = Some (doc_id, data)"
    using assms(2) by simp
  obtain es where es: "new_events (snd ?q) (snd ?p) = ProcessDocument doc_id data # es"
    and clean: "\<forall>e \<in> set es. \<not> is_process_call e"
    using process_document_new_events[of "snd ?q" doc_id data] by blast
  have tp: "trace (snd ?p) =
      trace w @ [Printed (ChangeDetected (length cs)), Queried, ProcessDocument doc_id data] @ es"
    using process_document_extends[of doc_id data "snd ?q"] es by simp
  show ?thesis
  proof (cases "Some doc_id = last_processed_doc_id w")
    case True
    then have "on_snapshot ds cs rt w =
        release (emit (Printed (AlreadyProcessed doc_id)) (snd ?q))"
      using assms(1) q by (simp add: on_snapshot_later Let_def)
    then show ?thesis
      using True by (simp add: new_events_append Let_def)
  next
    case False
    then have unf: "on_snapshot ds cs rt w =
        (if fst ?p then release (assign_last_processed_doc_id doc_id (snd ?p))
         else release (snd ?p))"
      using assms(1) q by (simp add: on_snapshot_later Let_def)
    show ?thesis
    proof (cases "fst ?p")
      case True
      then have "trace (on_snapshot ds cs rt w) =
          trace w @ ([Printed (ChangeDetected (length cs)), Queried, ProcessDocument doc_id data]
            @ es @ [Assigned LastProcessedDocId True])"
        using unf tp by simp
      then have "new_events w (on_snapshot ds cs rt w) =
          [Printed (ChangeDetected (length cs)), Queried, ProcessDocument doc_id data]
            @ es @ [Assigned LastProcessedDocId True]"
        by (rule new_events_append)
      then show ?thesis
        using True False unf clean by (simp add: Let_def filter_none)
    next
      case no: False
      then have "trace (on_snapshot ds cs rt w) =
          trace w @ ([Printed (ChangeDetected (length cs)), Queried, ProcessDocument doc_id data]
            @ es)"
        using unf tp by simp
      then have "new_events w (on_snapshot ds cs rt w) =
          [Printed (ChangeDetected (length cs)), Queried, ProcessDocument doc_id data] @ es"
        by (rule new_events_append)
      then show ?thesis
        using no False unf clean by (simp add: Let_def filter_none)
    qed
  qed
qed

lemma example_first_snapshot [simp]:
  "initial_snapshot_received (on_snapshot [] [] 0 example_world)"
  "last_processed_doc_id (on_snapshot [] [] 0 example_world) = None"
  "raw (on_snapshot [] [] 0 example_world) = []"
  "calibrated (on_snapshot [] [] 0 example_world) = []"
  "faults (on_snapshot [] [] 0 example_world) = []"
  "server_time (on_snapshot [] [] 0 example_world) = 1000"
  "model (on_snapshot [] [] 0 example_world) = example_model"
  "ts_less (on_snapshot [] [] 0 example_world) = timestamp_less"
  by (simp_all add: on_snapshot_def example_world_def)

theorem reconcile_latest_witness:
  "initial_snapshot_received (store_raw ''r1'' example_data (on_snapshot [] [] 0 example_world))
   \<and> fst (get_latest_document_by_timestamp
        (store_raw ''r1'' example_data (on_snapshot [] [] 0 example_world))) = Some (''r1'', example_data)
   \<and> last_processed_doc_id (on_snapshot [] [(ADDED, ''r1'')] 1
        (store_raw ''r1'' example_data (on_snapshot [] [] 0 example_world))) = Some ''r1''"
proof -
  let ?w = "store_raw ''r1'' example_data (on_snapshot [] [] 0 example_world)"
  let ?wq = "snd (get_latest_document_by_timestamp (enter_critical_section [(ADDED, ''r1'')] ?w))"
  have seen: "initial_snapshot_received ?w"
    by simp
  have q: "fst (get_latest_document_by_timestamp ?w) = Some (''r1'', example_data)"
    by (simp add: get_latest_result fails_def example_data_def)
  have ok: "fst (process_document ''r1'' example_data ?wq)"
    by (simp add: processor_eval example_model_def example_data_def)
  from reconcile_latest[OF seen q, of "[]" "[(ADDED, ''r1'')]" 1] ok seen q
  show ?thesis by (simp add: Let_def)
qed

section \<open>Facts about the Document Processor\<close>

lemma consume_commutes [simp]:
  "consume (emit e w) = emit e (consume w)"
  "consume (store_calibrated i d w) = store_calibrated i d (consume w)"
  "consume (store_raw i d w) = store_raw i d (consume w)"
  by (simp_all add: consume_def emit_def store_calibrated_def store_raw_def)

lemma process_document_success_iff:
  "fst (process_document i d w) \<longleftrightarrow>
     \<not> fails w \<and> map_of (calibrated w) i = None \<and> \<not> marked_processed d
   \<and> (\<exists>X rows row cd. prepare_input d = Inr X \<and> model w X = Inr rows \<and> item rows 0 = Inr row
         \<and> calibrated_dict row = Inr cd)
   \<and> \<not> fails (consume w) \<and> \<not> fails (consume (consume w)) \<and> map_of (raw w) i \<noteq> None"
  by (auto simp: processor_defs split: sum.splits option.splits)

lemma process_document_success_store:
  assumes "fst (process_document i d w)"
    and "prepare_input d = Inr X" and "model w X = Inr rows" and "item rows 0 = Inr row"
    and "calibrated_dict row = Inr cd" and "map_of (raw w) i = Some old"
  shows "calibrated (snd (process_document i d w)) =
           AList.update i (resolve (server_time w) (merged d cd)) (calibrated w)"
    and "raw (snd (process_document i d w)) =
           AList.update i (old ++ resolve (server_time w) processed_mark) (raw w)"
    and "new_events w (snd (process_document i d w)) =
           [ProcessDocument i d, Printed (Processing i), CalibratedGet i,
            CalibratedSet i (merged d cd), RawUpdate i processed_mark, Printed (Saved i)]"
  using assms
  by (simp_all add: processor_defs new_events_def split: sum.splits option.splits if_splits)


lemma process_document_existing:
  assumes "map_of (calibrated w) i \<noteq> None"
  shows "\<not> fst (process_document i d w)"
    and "raw (snd (process_document i d w)) = raw w"
    and "calibrated (snd (process_document i d w)) = calibrated w"
    and "new_events w (snd (process_document i d w)) =
           [ProcessDocument i d, Printed (Processing i), CalibratedGet i,
            Printed (if fails w then ErrorProcessing i Unavailable else SkipCalibrated i)]"
  using assms
  by (simp_all add: processor_defs new_events_def split: sum.splits option.splits)

lemma process_document_invalid:
  assumes "prepare_input d = Inl e"
  shows "\<not> fst (process_document i d w)"
    and "raw (snd (process_document i d w)) = raw w"
    and "calibrated (snd (process_document i d w)) = calibrated w"
    and "new_events w (snd (process_document i d w)) =
           [ProcessDocument i d, Printed (Processing i), CalibratedGet i,
            Printed (if fails w then ErrorProcessing i Unavailable
                     else if map_of (calibrated w) i \<noteq> None then SkipCalibrated i
                     else if marked_processed d then SkipProcessed i
                     else handler_message i e)]"
  using assms
  by (simp_all add: processor_defs new_events_def split: sum.splits option.splits)

lemma check_required_missing:
  "\<exists>k \<in> set keys. data k = None \<Longrightarrow>
     \<exists>k \<in> set keys. data k = None \<and> check_required keys data = Inl (KeyError k)"
  by (induction keys) auto

lemma prepare_input_missing:
  assumes "\<exists>k \<in> set required. data k = None"
  shows "\<exists>k \<in> set required. data k = None \<and> prepare_input data = Inl (KeyError k)"
proof -
  from check_required_missing[OF assms] obtain k
    where "k \<in> set required" "data k = None" "check_required required data = Inl (KeyError k)"
    by blast
  then show ?thesis by (auto simp: prepare_input_def)
qed

lemma documents_at_update:
  "map_of al k = None \<Longrightarrow> documents_at k (AList.update k v al) = 1"
  by (induction al) (auto simp: documents_at_def split: if_splits)

section \<open>Idempotency of the Document Processor\<close>

text \<open>
  Claim C3, as the code has it. A call made while a CalibratedReading exists at \<open>i\<close>
  returns failure and writes nothing; it leaves through the already-calibrated skip unless
  its existence read fails. When a first call reports success, exactly one
  CalibratedReading is at \<open>i\<close> afterwards, written by the single \<open>set\<close> of that call, and
  a second call with the same arguments is such a call: failure, no write.
\<close>

theorem process_document_idempotent:
  "(map_of (calibrated w) i \<noteq> None \<longrightarrow>
       \<not> fst (process_document i d w)
     \<and> raw (snd (process_document i d w)) = raw w
     \<and> calibrated (snd (process_document i d w)) = calibrated w
     \<and> filter is_write (new_events w (snd (process_document i d w))) = []
     \<and> (\<not> fails w \<longrightarrow>
          last (new_events w (snd (process_document i d w))) = Printed (SkipCalibrated i)))
   \<and> (fst (process_document i d w) \<longrightarrow>
       (let w1 = snd (process_document i d w); p2 = process_document i d w1 in
          documents_at i (calibrated w1) = 1
        \<and> length (filter is_write (new_events w w1)) = 2
        \<and> \<not> fst p2
        \<and> raw (snd p2) = raw w1
        \<and> calibrated (snd p2) = calibrated w1
        \<and> filter is_write (new_events w1 (snd p2)) = []
        \<and> (\<not> fails w1 \<longrightarrow> last (new_events w1 (snd p2)) = Printed (SkipCalibrated i))))"
proof (intro conjI impI)
  assume ok: "fst (process_document i d w)"
  let ?w1 = "snd (process_document i d w)"
  from ok obtain X rows row cd old
    where steps: "prepare_input d = Inr X" "model w X = Inr rows" "item rows 0 = Inr row"
      "calibrated_dict row = Inr cd" "map_of (raw w) i = Some old"
    and fresh: "map_of (calibrated w) i = None"
    unfolding process_document_success_iff by blast
  note after = process_document_success_store[OF ok steps]
  have one: "documents_at i (calibrated ?w1) = 1"
    using after(1) fresh by (simp add: documents_at_update)
  have there: "map_of (calibrated ?w1) i \<noteq> None"
    using after(1) by (simp add: update_conv')
  note again = process_document_existing[OF there, of d]
  show "let w1 = ?w1; p2 = process_document i d w1 in
          documents_at i (calibrated w1) = 1
        \<and> length (filter is_write (new_events w w1)) = 2
        \<and> \<not> fst p2
        \<and> raw (snd p2) = raw w1
        \<and> calibrated (snd p2) = calibrated w1
        \<and> filter is_write (new_events w1 (snd p2)) = []
        \<and> (\<not> fails w1 \<longrightarrow> last (new_events w1 (snd p2)) = Printed (SkipCalibrated i))"
    using one again after(3) by (simp add: Let_def)
qed (simp_all add: process_document_existing)

theorem process_document_idempotent_witness:
  "fst (process_document ''r1'' example_data (store_raw ''r1'' example_data example_world))
   \<and> documents_at ''r1'' (calibrated (snd (process_document ''r1'' example_data
        (store_raw ''r1'' example_data example_world)))) = 1
   \<and> \<not> fst (process_document ''r1'' example_data (snd (process_document ''r1'' example_data
        (store_raw ''r1'' example_data example_world))))"
proof -
  have ok: "fst (process_document ''r1'' example_data (store_raw ''r1'' example_data example_world))"
    by (simp add: processor_eval example_world_def example_model_def example_data_def)
  from process_document_idempotent[of "store_raw ''r1'' example_data example_world" "''r1''"
      example_data] ok
  show ?thesis by (simp add: Let_def)
qed

text \<open>
  The claim as stated fails in two ways. For a reading without the channel \<open>N\<close> both
  calls leave through the missing-field handler and no CalibratedReading is ever at
  \<open>r1\<close>. For the complete reading, when the destination write of the first call fails,
  the first call reports failure and it is the second call that writes and reports
  success.
\<close>

theorem process_document_twice_counterexample:
  "documents_at ''r1'' (calibrated (snd (process_document ''r1'' reading_without_N
      (snd (process_document ''r1'' reading_without_N
        (store_raw ''r1'' reading_without_N example_world)))))) = 0
   \<and> last (trace (snd (process_document ''r1'' reading_without_N
      (snd (process_document ''r1'' reading_without_N
        (store_raw ''r1'' reading_without_N example_world))))))
      = Printed (MissingField ''r1'' ''N'')
   \<and> \<not> fst (process_document ''r1'' example_data
        (store_raw ''r1'' example_data (example_world\<lparr>faults := [False, True]\<rparr>)))
   \<and> fst (process_document ''r1'' example_data
        (snd (process_document ''r1'' example_data
          (store_raw ''r1'' example_data (example_world\<lparr>faults := [False, True]\<rparr>)))))"
proof -
  have "documents_at ''r1'' (calibrated (snd (process_document ''r1'' reading_without_N
      (snd (process_document ''r1'' reading_without_N
        (store_raw ''r1'' reading_without_N example_world)))))) = 0
   \<and> last (trace (snd (process_document ''r1'' reading_without_N
      (snd (process_document ''r1'' reading_without_N
        (store_raw ''r1'' reading_without_N example_world))))))
      = Printed (MissingField ''r1'' ''N'')"
    by (simp add: processor_eval example_world_def documents_at_def reading_without_N_def)
  moreover have "\<not> fst (process_document ''r1'' example_data
        (store_raw ''r1'' example_data (example_world\<lparr>faults := [False, True]\<rparr>)))"
    by (simp add: process_document_success_iff fails_def example_world_def)
  moreover have "fst (process_document ''r1'' example_data
        (snd (process_document ''r1'' example_data
          (store_raw ''r1'' example_data (example_world\<lparr>faults := [False, True]\<rparr>)))))"
    by (simp add: processor_eval example_world_def example_model_def example_data_def)
  ultimately show ?thesis by blast
qed

section \<open>Field validation\<close>

text \<open>
  Claim C4, as the code has it. When the data lacks one of the five channels, the call
  reports failure and writes nothing: both collections are as before (no
  CalibratedReading appears, the reading is not marked processed) and no write request is
  sent. The call leaves through the missing-field handler, naming a missing channel,
  whenever the existence read succeeds, no CalibratedReading exists at \<open>i\<close> and the data
  is not marked processed; otherwise one of the two guards or the failed read ends it
  first.
\<close>

theorem missing_channel_never_written:
  assumes "\<exists>k \<in> set required. d k = None"
  shows "\<not> fst (process_document i d w)
     \<and> raw (snd (process_document i d w)) = raw w
     \<and> calibrated (snd (process_document i d w)) = calibrated w
     \<and> filter is_write (new_events w (snd (process_document i d w))) = []
     \<and> (\<not> fails w \<and> map_of (calibrated w) i = None \<and> \<not> marked_processed d \<longrightarrow>
          (\<exists>k \<in> set required. d k = None
             \<and> last (new_events w (snd (process_document i d w))) = Printed (MissingField i k)))"
proof -
  from prepare_input_missing[OF assms] obtain k
    where k: "k \<in> set required" "d k = None" "prepare_input d = Inl (KeyError k)"
    by blast
  note inv = process_document_invalid[OF k(3), where i=i and w=w]
  have "\<not> fails w \<and> map_of (calibrated w) i = None \<and> \<not> marked_processed d \<longrightarrow>
      last (new_events w (snd (process_document i d w))) = Printed (MissingField i k)"
    using inv(4) by simp
  with k(1,2) have "\<not> fails w \<and> map_of (calibrated w) i = None \<and> \<not> marked_processed d \<longrightarrow>
      (\<exists>k \<in> set required. d k = None
         \<and> last (new_events w (snd (process_document i d w))) = Printed (MissingField i k))"
    by blast
  moreover have "filter is_write (new_events w (snd (process_document i d w))) = []"
    using inv(4) by simp
  ultimately show ?thesis
    using inv(1,2,3) by simp
qed

theorem missing_channel_never_written_witness:
  "(\<exists>k \<in> set required. reading_without_N k = None)
   \<and> \<not> fst (process_document ''r1'' reading_without_N
        (store_raw ''r1'' reading_without_N example_world))
   \<and> calibrated (snd (process_document ''r1'' reading_without_N
        (store_raw ''r1'' reading_without_N example_world))) = []
   \<and> raw (snd (process_document ''r1'' reading_without_N
        (store_raw ''r1'' reading_without_N example_world)))
      = [(''r1'', reading_without_N)]"
proof -
  have miss: "\<exists>k \<in> set required. reading_without_N k = None"
    by (simp add: required_def reading_without_N_def)
  have start: "calibrated (store_raw ''r1'' reading_without_N example_world) = []"
    "raw (store_raw ''r1'' reading_without_N example_world) = [(''r1'', reading_without_N)]"
    by (simp_all add: example_world_def)
  from missing_channel_never_written[OF miss, of "''r1''"
      "store_raw ''r1'' reading_without_N example_world"] miss start
  show ?thesis by simp
qed

text \<open>
  The claim as stated fails on the path taken. A reading without \<open>N\<close> that is marked
  processed leaves through the already-processed skip, and one whose existence read
  fails leaves through the general handler; neither reaches the validation.
\<close>

theorem missing_channel_path_counterexample:
  "marked_reading_without_N ''N'' = None
   \<and> trace (snd (process_document ''r1'' marked_reading_without_N example_world))
      = [ProcessDocument ''r1'' marked_reading_without_N,
         Printed (Processing ''r1''), CalibratedGet ''r1'', Printed (SkipProcessed ''r1'')]
   \<and> reading_without_N ''N'' = None
   \<and> trace (snd (process_document ''r1'' reading_without_N (example_world\<lparr>faults := [True]\<rparr>)))
      = [ProcessDocument ''r1'' reading_without_N,
         Printed (Processing ''r1''), CalibratedGet ''r1'',
         Printed (ErrorProcessing ''r1'' Unavailable)]"
proof -
  have "marked_processed marked_reading_without_N"
    by (simp add: marked_processed_def marked_reading_without_N_def)
  moreover have "marked_reading_without_N ''N'' = None" "reading_without_N ''N'' = None"
    by (simp_all add: marked_reading_without_N_def reading_without_N_def)
  ultimately show ?thesis
    by (simp add: processor_defs fails_def example_world_def)
qed

section \<open>Exceptions and the console\<close>

lemma console_works_step [simp]:
  "console_works w \<Longrightarrow> \<not> console_fails w"
  "console_works w \<Longrightarrow> console_works (advance_console w)"
proof -
  assume "console_works w"
  then have "True \<notin> set (console w)"
    by (simp add: console_works_def)
  then show "\<not> console_fails w" "console_works (advance_console w)"
    by (cases "console w"; simp add: console_fails_def console_works_def)+
qed

lemma consume_advance_console [simp]:
  "consume (advance_console w) = advance_console (consume w)"
  by (simp add: consume_def advance_console_def)

lemma print_lines_fields [simp]:
  "raw (snd (print_lines ms w)) = raw w"
  "calibrated (snd (print_lines ms w)) = calibrated w"
  "server_time (snd (print_lines ms w)) = server_time w"
  "faults (snd (print_lines ms w)) = faults w"
  "model (snd (print_lines ms w)) = model w"
  "fails (snd (print_lines ms w)) = fails w"
  by (induction ms arbitrary: w; simp)+

lemma print_lines_consume [simp]:
  "consume (snd (print_lines ms w)) = snd (print_lines ms (consume w))"
  by (induction ms arbitrary: w) simp_all

lemma print_lines_Inl: "print_lines ms w = (Inl e, w') \<Longrightarrow> e = ConsoleError"
  by (induction ms arbitrary: w) (auto split: if_splits)

lemma print_lines_works [simp]:
  "console_works w \<Longrightarrow> fst (print_lines ms w) = Inr ()"
  "console_works w \<Longrightarrow> console_works (snd (print_lines ms w))"
  by (induction ms arbitrary: w; simp)+

lemma process_document_io_escape:
  "fst (process_document_io i d w) = Inl e \<Longrightarrow> e = ConsoleError"
  by (auto simp: process_document_io_def split: prod.splits sum.splits dest: print_lines_Inl)

lemmas processor_io_defs = process_document_io_def process_document_io_try_def
  calibrated_get_def calibrated_set_def raw_update_def

lemma process_document_io_works:
  assumes "console_works w"
  shows "fst (process_document_io i d w) = Inr (fst (process_document i d w))
       \<and> raw (snd (process_document_io i d w)) = raw (snd (process_document i d w))
       \<and> calibrated (snd (process_document_io i d w))
           = calibrated (snd (process_document i d w))"
proof (cases "fails w")
  case True
  with assms show ?thesis
    by (simp_all add: processor_io_defs processor_defs case_prod_beta del: print_lines.simps split: sum.splits)
next
  case read: False
  show ?thesis
  proof (cases "map_of (calibrated w) i")
    case (Some existing)
    with assms read show ?thesis
      by (simp_all add: processor_io_defs processor_defs case_prod_beta del: print_lines.simps split: sum.splits)
  next
    case fresh: None
    show ?thesis
    proof (cases "marked_processed d")
      case True
      with assms read fresh show ?thesis
        by (simp_all add: processor_io_defs processor_defs case_prod_beta del: print_lines.simps split: sum.splits)
    next
      case unmarked: False
      show ?thesis
      proof (cases "prepare_input d")
        case (Inl e)
        with assms read fresh unmarked show ?thesis
          by (simp_all add: processor_io_defs processor_defs case_prod_beta del: print_lines.simps split: sum.splits)
      next
        case X: (Inr X)
        show ?thesis
        proof (cases "model w X")
          case (Inl e)
          with assms read fresh unmarked X show ?thesis
            by (simp_all add: processor_io_defs processor_defs case_prod_beta del: print_lines.simps split: sum.splits)
        next
          case rows: (Inr rows)
          show ?thesis
          proof (cases "item rows 0")
            case (Inl e)
            with assms read fresh unmarked X rows show ?thesis
              by (simp_all add: processor_io_defs processor_defs case_prod_beta del: print_lines.simps split: sum.splits)
          next
            case row: (Inr row)
            show ?thesis
            proof (cases "calibrated_dict row")
              case (Inl e)
              with assms read fresh unmarked X rows row show ?thesis
                by (simp_all add: processor_io_defs processor_defs case_prod_beta del: print_lines.simps split: sum.splits)
            next
              case cd: (Inr cd)
              show ?thesis
              proof (cases "fails (consume w)")
                case True
                with assms read fresh unmarked X rows row cd show ?thesis
                  by (simp_all add: processor_io_defs processor_defs case_prod_beta del: print_lines.simps split: sum.splits)
              next
                case set_ok: False
                show ?thesis
                proof (cases "fails (consume (consume w))")
                  case True
                  with assms read fresh unmarked X rows row cd set_ok show ?thesis
                    by (simp_all add: processor_io_defs processor_defs case_prod_beta del: print_lines.simps split: sum.splits)
                next
                  case update_ok: False
                  show ?thesis
                  proof (cases "map_of (raw w) i")
                    case None
                    with assms read fresh unmarked X rows row cd set_ok update_ok show ?thesis
                      by (simp_all add: processor_io_defs processor_defs case_prod_beta del: print_lines.simps split: sum.splits)
                  next
                    case (Some old)
                    with assms read fresh unmarked X rows row cd set_ok update_ok show ?thesis
                      by (simp_all add: processor_io_defs processor_defs case_prod_beta del: print_lines.simps split: sum.splits)
                  qed
                qed
              qed
            qed
          qed
        qed
      qed
    qed
  qed
qed

lemma process_document_io_success:
  assumes "fst (process_document_io i d w) = Inr True"
  shows "fst (process_document i d w)
       \<and> raw (snd (process_document_io i d w)) = raw (snd (process_document i d w))
       \<and> calibrated (snd (process_document_io i d w))
           = calibrated (snd (process_document i d w))"
proof (cases "fails w")
  case True
  with assms show ?thesis
    by (simp_all add: processor_io_defs processor_defs case_prod_beta del: print_lines.simps split: sum.splits)
next
  case read: False
  show ?thesis
  proof (cases "map_of (calibrated w) i")
    case (Some existing)
    with assms read show ?thesis
      by (simp_all add: processor_io_defs processor_defs case_prod_beta del: print_lines.simps split: sum.splits)
  next
    case fresh: None
    show ?thesis
    proof (cases "marked_processed d")
      case True
      with assms read fresh show ?thesis
        by (simp_all add: processor_io_defs processor_defs case_prod_beta del: print_lines.simps split: sum.splits)
    next
      case unmarked: False
      show ?thesis
      proof (cases "prepare_input d")
        case (Inl e)
        with assms read fresh unmarked show ?thesis
          by (simp_all add: processor_io_defs processor_defs case_prod_beta del: print_lines.simps split: sum.splits)
      next
        case X: (Inr X)
        show ?thesis
        proof (cases "model w X")
          case (Inl e)
          with assms read fresh unmarked X show ?thesis
            by (simp_all add: processor_io_defs processor_defs case_prod_beta del: print_lines.simps split: sum.splits)
        next
          case rows: (Inr rows)
          show ?thesis
          proof (cases "item rows 0")
            case (Inl e)
            with assms read fresh unmarked X rows show ?thesis
              by (simp_all add: processor_io_defs processor_defs case_prod_beta del: print_lines.simps split: sum.splits)
          next
            case row: (Inr row)
            show ?thesis
            proof (cases "calibrated_dict row")
              case (Inl e)
              with assms read fresh unmarked X rows row show ?thesis
                by (simp_all add: processor_io_defs processor_defs case_prod_beta del: print_lines.simps split: sum.splits)
            next
              case cd: (Inr cd)
              show ?thesis
              proof (cases "fails (consume w)")
                case True
                with assms read fresh unmarked X rows row cd show ?thesis
                  by (simp_all add: processor_io_defs processor_defs case_prod_beta del: print_lines.simps split: sum.splits)
              next
                case set_ok: False
                show ?thesis
                proof (cases "fails (consume (consume w))")
                  case True
                  with assms read fresh unmarked X rows row cd set_ok show ?thesis
                    by (simp_all add: processor_io_defs processor_defs case_prod_beta del: print_lines.simps split: sum.splits)
                next
                  case update_ok: False
                  show ?thesis
                  proof (cases "map_of (raw w) i")
                    case None
                    with assms read fresh unmarked X rows row cd set_ok update_ok show ?thesis
                      by (simp_all add: processor_io_defs processor_defs case_prod_beta del: print_lines.simps split: sum.splits)
                  next
                    case (Some old)
                    with assms read fresh unmarked X rows row cd set_ok update_ok show ?thesis
                      by (simp_all add: processor_io_defs processor_defs case_prod_beta del: print_lines.simps split: sum.splits)
                  qed
                qed
              qed
            qed
          qed
        qed
      qed
    qed
  qed
qed

text \<open>
  Claim C5, as the code has it. No exception raised by a store read, by the validation,
  by the model or by either write reaches the caller of \<open>process_document\<close>: every one of
  them (all subclasses of \<^verbatim>\<open>Exception\<close>) is caught by one of the two handlers. The
  only exception that can leave the call is one that the console raises while a handler
  writes its own lines, outside any \<^verbatim>\<open>try\<close>. On a console that works the call
  therefore always returns, with failure whenever a step raised; and on any console it
  returns success only if the feature row was built, the model answered with a row of
  five values, and the destination write and the update of the source reading took
  effect.
\<close>

theorem process_document_io_exceptions:
  "(\<forall>e. fst (process_document_io i d w) = Inl e \<longrightarrow> e = ConsoleError \<and> \<not> console_works w)
   \<and> (console_works w \<longrightarrow>
        fst (process_document_io i d w) = Inr (fst (process_document i d w))
      \<and> raw (snd (process_document_io i d w)) = raw (snd (process_document i d w))
      \<and> calibrated (snd (process_document_io i d w))
          = calibrated (snd (process_document i d w)))
   \<and> (console_works w \<and> fails w \<longrightarrow> fst (process_document_io i d w) = Inr False)
   \<and> (\<forall>e. console_works w \<and> prepare_input d = Inl e \<longrightarrow>
        fst (process_document_io i d w) = Inr False)
   \<and> (\<forall>X e. console_works w \<and> prepare_input d = Inr X \<and> model w X = Inl e \<longrightarrow>
        fst (process_document_io i d w) = Inr False)
   \<and> (console_works w \<and> (fails (consume w) \<or> fails (consume (consume w))) \<longrightarrow>
        fst (process_document_io i d w) = Inr False)
   \<and> (fst (process_document_io i d w) = Inr True \<longrightarrow>
        (\<exists>X rows row cd old.
            prepare_input d = Inr X \<and> model w X = Inr rows \<and> item rows 0 = Inr row
          \<and> calibrated_dict row = Inr cd \<and> map_of (raw w) i = Some old
          \<and> map_of (calibrated (snd (process_document_io i d w))) i
              = Some (resolve (server_time w) (merged d cd))
          \<and> map_of (raw (snd (process_document_io i d w))) i
              = Some (old ++ resolve (server_time w) processed_mark)))"
proof (intro conjI allI impI)
  fix e
  assume esc: "fst (process_document_io i d w) = Inl e"
  then show "e = ConsoleError"
    by (rule process_document_io_escape)
  show "\<not> console_works w"
    using esc process_document_io_works[of w i d] by auto
next
  assume "fst (process_document_io i d w) = Inr True"
  note ok = process_document_io_success[OF this]
  from ok obtain X rows row cd old
    where steps: "prepare_input d = Inr X" "model w X = Inr rows" "item rows 0 = Inr row"
      "calibrated_dict row = Inr cd" "map_of (raw w) i = Some old"
    unfolding process_document_success_iff by blast
  have "fst (process_document i d w)"
    using ok by simp
  note stored = process_document_success_store[OF this steps]
  have "map_of (calibrated (snd (process_document_io i d w))) i
      = Some (resolve (server_time w) (merged d cd))"
    "map_of (raw (snd (process_document_io i d w))) i
      = Some (old ++ resolve (server_time w) processed_mark)"
    using ok stored(1,2) by (simp_all add: update_conv')
  with steps show "\<exists>X rows row cd old.
            prepare_input d = Inr X \<and> model w X = Inr rows \<and> item rows 0 = Inr row
          \<and> calibrated_dict row = Inr cd \<and> map_of (raw w) i = Some old
          \<and> map_of (calibrated (snd (process_document_io i d w))) i
              = Some (resolve (server_time w) (merged d cd))
          \<and> map_of (raw (snd (process_document_io i d w))) i
              = Some (old ++ resolve (server_time w) processed_mark)"
    by blast
qed (auto simp: process_document_io_works process_document_success_iff)

theorem process_document_io_exceptions_witness:
  "console_works (store_raw ''r1'' example_data example_world)
   \<and> fst (process_document_io ''r1'' example_data (store_raw ''r1'' example_data example_world))
      = Inr True
   \<and> console_works (example_world\<lparr>faults := [True]\<rparr>)
   \<and> fails (example_world\<lparr>faults := [True]\<rparr>)
   \<and> fst (process_document_io ''r1'' example_data (example_world\<lparr>faults := [True]\<rparr>))
      = Inr False
   \<and> prepare_input reading_without_N = Inl (KeyError ''N'')
   \<and> fst (process_document_io ''r1'' reading_without_N example_world) = Inr False"
proof -
  define v where "v = store_raw ''r1'' example_data example_world"
  define u where "u = example_world\<lparr>faults := [True]\<rparr>"
  have c: "console_works v" "console_works u" "console_works example_world"
    by (simp_all add: v_def u_def console_works_def example_world_def)
  have f: "fails u"
    by (simp add: u_def fails_def)
  have p: "prepare_input reading_without_N = Inl (KeyError ''N'')"
    by (simp add: prepare_input_def required_def reading_without_N_def)
  have ok: "fst (process_document ''r1'' example_data v)"
    by (simp add: v_def processor_eval example_world_def example_model_def example_data_def)
  from process_document_io_exceptions[of "''r1''" example_data v] c(1) ok
  have 1: "fst (process_document_io ''r1'' example_data v) = Inr True"
    by simp
  from process_document_io_exceptions[of "''r1''" example_data u] c(2) f
  have 2: "fst (process_document_io ''r1'' example_data u) = Inr False"
    by blast
  from process_document_io_exceptions[of "''r1''" reading_without_N example_world] c(3) p
  have 3: "fst (process_document_io ''r1'' reading_without_N example_world) = Inr False"
    by blast
  from c(1,2) f p 1 2 3 show ?thesis
    unfolding v_def u_def by blast
qed

text \<open>
  The claim as stated fails when the console does. For a reading without \<open>N\<close> the
  \<^verbatim>\<open>KeyError\<close> is caught and then the handler's own line raises, out of the function;
  on a closed console the first line raises inside the \<^verbatim>\<open>try\<close>, is caught, and the
  handler's line raises again.
\<close>

theorem process_document_io_escape_counterexample:
  "fst (process_document_io ''r1'' reading_without_N (example_world\<lparr>console := [False, True]\<rparr>))
     = Inl ConsoleError
   \<and> fst (process_document_io ''r1'' example_data
        (store_raw ''r1'' example_data (example_world\<lparr>console := [True, True, True]\<rparr>)))
     = Inl ConsoleError"
proof -
  have "prepare_input reading_without_N = Inl (KeyError ''N'')"
    by (simp add: prepare_input_def required_def reading_without_N_def)
  moreover have "\<not> marked_processed reading_without_N"
    by (simp add: marked_processed_def reading_without_N_def)
  ultimately have "fst (process_document_io ''r1'' reading_without_N
      (example_world\<lparr>console := [False, True]\<rparr>)) = Inl ConsoleError"
    by (simp add: processor_io_defs example_world_def fails_def console_fails_def
        advance_console_def emit_def consume_def)
  moreover have "fst (process_document_io ''r1'' example_data
      (store_raw ''r1'' example_data (example_world\<lparr>console := [True, True, True]\<rparr>)))
      = Inl ConsoleError"
    by (simp add: processor_io_defs example_world_def console_fails_def
        advance_console_def emit_def store_raw_def)
  ultimately show ?thesis by blast
qed

section \<open>The written CalibratedReading\<close>

lemma subscripts_values:
  "subscripts data keys = Inr vs \<Longrightarrow> map Some vs = map data keys"
  by (induction keys arbitrary: vs) (auto split: option.splits sum.splits)

lemma prepare_input_values:
  "prepare_input data = Inr X \<Longrightarrow>
     map Some X = map data [''N'', ''P'', ''K'', ''pH'', ''Conductivity'']"
proof -
  assume "prepare_input data = Inr X"
  then have "subscripts data [''N'', ''P'', ''K'', ''pH'', ''Conductivity''] = Inr X"
    by (simp add: prepare_input_def split: sum.splits del: subscripts.simps)
  from subscripts_values[OF this] show ?thesis by simp
qed

lemma calibrated_dict_values:
  assumes "calibrated_dict row = Inr cd"
  shows "5 \<le> length row"
    and "cd = map_of
            [(''calibrated_N'', Plain (VFloat (row ! 0))),
             (''calibrated_P'', Plain (VFloat (row ! 1))),
             (''calibrated_K'', Plain (VFloat (row ! 2))),
             (''calibrated_pH'', Plain (VFloat (row ! 3))),
             (''calibrated_Conductivity'', Plain (VFloat (row ! 4))),
             (''calibrated_timestamp'', SERVER_TIMESTAMP)]"
  using assms
  by (simp_all add: calibrated_dict_def item_def split: if_splits)

lemma resolve_merged:
  "resolve t (merged data cd) k =
     (case cd k of
        None \<Rightarrow> data k
      | Some (Plain v) \<Rightarrow> Some v
      | Some SERVER_TIMESTAMP \<Rightarrow> Some (VTimestamp t))"
  by (cases "data k")
     (simp_all add: resolve_def merged_def map_add_def split: option.splits field_value.splits)

text \<open>
  Claim C6. After a successful call the document stored at \<open>i\<close> in the destination
  collection holds, under the five calibrated field names, the entries 0 to 4 of the
  model's output row for the feature row \<open>N, P, K, pH, Conductivity\<close> of the reading (as
  floats), under \<open>calibrated_timestamp\<close> the time of the server, and under every other
  name exactly what the source reading has: the calibrated fields merged over a copy of
  the reading, and nothing else.
\<close>

theorem calibrated_reading_contents:
  assumes "fst (process_document i d w)"
  shows "\<exists>X rows row stored.
      prepare_input d = Inr X
    \<and> map Some X = map d [''N'', ''P'', ''K'', ''pH'', ''Conductivity'']
    \<and> model w X = Inr rows \<and> item rows 0 = Inr row \<and> 5 \<le> length row
    \<and> map_of (calibrated (snd (process_document i d w))) i = Some stored
    \<and> stored ''calibrated_N'' = Some (VFloat (row ! 0))
    \<and> stored ''calibrated_P'' = Some (VFloat (row ! 1))
    \<and> stored ''calibrated_K'' = Some (VFloat (row ! 2))
    \<and> stored ''calibrated_pH'' = Some (VFloat (row ! 3))
    \<and> stored ''calibrated_Conductivity'' = Some (VFloat (row ! 4))
    \<and> stored ''calibrated_timestamp'' = Some (VTimestamp (server_time w))
    \<and> (\<forall>k. k \<notin> set calibrated_fields \<longrightarrow> stored k = d k)"
proof -
  from assms obtain X rows row cd old
    where steps: "prepare_input d = Inr X" "model w X = Inr rows" "item rows 0 = Inr row"
      "calibrated_dict row = Inr cd" "map_of (raw w) i = Some old"
    unfolding process_document_success_iff by blast
  let ?stored = "resolve (server_time w) (merged d cd)"
  note cd = calibrated_dict_values[OF steps(4)]
  have at: "map_of (calibrated (snd (process_document i d w))) i = Some ?stored"
    using process_document_success_store(1)[OF assms steps] by (simp add: update_conv')
  have fields: "?stored ''calibrated_N'' = Some (VFloat (row ! 0))"
    "?stored ''calibrated_P'' = Some (VFloat (row ! 1))"
    "?stored ''calibrated_K'' = Some (VFloat (row ! 2))"
    "?stored ''calibrated_pH'' = Some (VFloat (row ! 3))"
    "?stored ''calibrated_Conductivity'' = Some (VFloat (row ! 4))"
    "?stored ''calibrated_timestamp'' = Some (VTimestamp (server_time w))"
    by (simp_all add: resolve_merged cd(2))
  have others: "\<forall>k. k \<notin> set calibrated_fields \<longrightarrow> ?stored k = d k"
    by (simp add: resolve_merged cd(2) calibrated_fields_def)
  from steps(1-3) prepare_input_values[OF steps(1)] cd(1) at fields others
  show ?thesis by blast
qed

theorem calibrated_reading_contents_witness:
  "fst (process_document ''r1'' example_data (store_raw ''r1'' example_data example_world))
   \<and> (\<exists>stored.
        map_of (calibrated (snd (process_document ''r1'' example_data
          (store_raw ''r1'' example_data example_world)))) ''r1'' = Some stored
      \<and> stored ''calibrated_N'' = Some (VFloat (Finite (56 / 5)))
      \<and> stored ''calibrated_Conductivity'' = Some (VFloat (Finite (621 / 2)))
      \<and> stored ''calibrated_timestamp'' = Some (VTimestamp 1000)
      \<and> stored ''N'' = Some (VInt 10)
      \<and> stored ''timestamp'' = Some (VTimestamp 7))"
proof -
  let ?w = "store_raw ''r1'' example_data example_world"
  have ok: "fst (process_document ''r1'' example_data ?w)"
    by (simp add: processor_eval example_world_def example_model_def example_data_def)
  from calibrated_reading_contents[OF ok] obtain X rows row stored
    where m: "model ?w X = Inr rows" and r: "item rows 0 = Inr row"
      and at: "map_of (calibrated (snd (process_document ''r1'' example_data ?w))) ''r1''
                = Some stored"
      and f: "stored ''calibrated_N'' = Some (VFloat (row ! 0))"
        "stored ''calibrated_Conductivity'' = Some (VFloat (row ! 4))"
        "stored ''calibrated_timestamp'' = Some (VTimestamp (server_time ?w))"
      and o: "\<forall>k. k \<notin> set calibrated_fields \<longrightarrow> stored k = example_data k"
    by blast
  from m have "rows = [[Finite (56 / 5), Finite (27 / 5), Finite (81 / 10), Finite 6,
      Finite (621 / 2)]]"
    by (simp add: example_world_def example_model_def)
  with r have row: "row = [Finite (56 / 5), Finite (27 / 5), Finite (81 / 10), Finite 6,
      Finite (621 / 2)]"
    by (simp add: item_def)
  have t: "server_time ?w = 1000"
    by (simp add: example_world_def)
  have "stored ''N'' = Some (VInt 10)" "stored ''timestamp'' = Some (VTimestamp 7)"
    using o by (simp_all add: calibrated_fields_def example_data_def)
  with ok at f row t show ?thesis by simp
qed

section \<open>Who writes the reconciler state\<close>

lemma on_snapshot_later_assignments:
  assumes "initial_snapshot_received w"
  shows "\<exists>es. trace (on_snapshot ds cs rt w) = trace w @ es
           \<and> (\<forall>e \<in> set es. is_assignment e \<longrightarrow> e = Assigned LastProcessedDocId True)"
proof -
  let ?q = "get_latest_document_by_timestamp (enter_critical_section cs w)"
  show ?thesis
  proof (cases "fst ?q")
    case None
    then have "trace (on_snapshot ds cs rt w) =
        trace w @ [Printed (ChangeDetected (length cs)), Queried]"
      using assms by (simp add: on_snapshot_later Let_def)
    then show ?thesis by simp
  next
    case (Some latest_doc)
    let ?i = "fst latest_doc" and ?d = "snd latest_doc"
    let ?p = "process_document ?i ?d (snd ?q)"
    obtain es where es: "new_events (snd ?q) (snd ?p) = ProcessDocument ?i ?d # es"
      and clean: "\<forall>e \<in> set es. \<not> is_assignment e"
      using process_document_new_events[of "snd ?q" ?i ?d] by blast
    have tp: "trace (snd ?p) =
        trace w @ [Printed (ChangeDetected (length cs)), Queried, ProcessDocument ?i ?d] @ es"
      using process_document_extends[of ?i ?d "snd ?q"] es by simp
    consider (same) "Some ?i = last_processed_doc_id w"
      | (ok) "Some ?i \<noteq> last_processed_doc_id w" "fst ?p"
      | (failed) "Some ?i \<noteq> last_processed_doc_id w" "\<not> fst ?p"
      by blast
    then show ?thesis
    proof cases
      case same
      then have "trace (on_snapshot ds cs rt w) =
          trace w @ [Printed (ChangeDetected (length cs)), Queried,
                     Printed (AlreadyProcessed ?i)]"
        using assms Some by (simp add: on_snapshot_later Let_def)
      then show ?thesis by simp
    next
      case ok
      then have "trace (on_snapshot ds cs rt w) =
          trace w @ ([Printed (ChangeDetected (length cs)), Queried, ProcessDocument ?i ?d]
            @ es @ [Assigned LastProcessedDocId True])"
        using assms Some tp by (simp add: on_snapshot_later Let_def)
      then show ?thesis using clean by auto
    next
      case failed
      then have "trace (on_snapshot ds cs rt w) =
          trace w @ ([Printed (ChangeDetected (length cs)), Queried, ProcessDocument ?i ?d] @ es)"
        using assms Some tp by (simp add: on_snapshot_later Let_def)
      then show ?thesis using clean by auto
    qed
  qed
qed

lemma start_listener_setup_events:
  "new_events w (start_listener_setup w) =
     (case fst (get_current_latest_document w) of
        None \<Rightarrow> [Queried, Subscribed]
      | Some latest_doc \<Rightarrow> [Queried, Assigned LastProcessedDocId (lock_held w), Subscribed])"
  by (simp add: start_listener_setup_def get_current_latest_document_eq case_prod_beta
      new_events_def split: option.splits)

lemma start_listener_setup_fields [simp]:
  "raw (start_listener_setup w) = raw w"
  "calibrated (start_listener_setup w) = calibrated w"
  "watches (start_listener_setup w) = Suc (watches w)"
  "faults (start_listener_setup w) = tl (faults w)"
  "ts_less (start_listener_setup w) = ts_less w"
  "model (start_listener_setup w) = model w"
  "server_time (start_listener_setup w) = server_time w"
  "lock_held (start_listener_setup w) = lock_held w"
  "running (start_listener_setup w) = running w"
  "threads (start_listener_setup w) = threads w"
  "last_processed_doc_id (start_listener_setup w) =
     (case fst (get_current_latest_document w) of
        None \<Rightarrow> last_processed_doc_id w
      | Some latest_doc \<Rightarrow> Some (fst latest_doc))"
  by (simp_all add: start_listener_setup_def get_current_latest_document_eq case_prod_beta
      split: option.splits)

text \<open>
  Claim C7, as the code has it. \<open>last_processed_doc_id\<close> is assigned by the snapshot
  callback only while it holds \<open>processing_lock\<close>, and by the baseline step of
  \<open>start_listener\<close>, which does not take the lock. \<open>initial_snapshot_received\<close> is
  assigned by the snapshot callback before it takes the lock, on the discarded first batch
  only. The Document Processor and the lifecycle controller assign neither variable and
  leave both as they are.
\<close>

theorem reconciler_state_writers:
  "(\<forall>v b. Assigned v b \<in> set (new_events w (on_snapshot ds cs rt w)) \<longrightarrow>
        (v = LastProcessedDocId \<and> b \<and> initial_snapshot_received w)
      \<or> (v = InitialSnapshotReceived \<and> b = lock_held w \<and> \<not> initial_snapshot_received w))
   \<and> (\<forall>v b. Assigned v b \<in> set (new_events w (start_listener_setup w)) \<longrightarrow>
        v = LastProcessedDocId \<and> b = lock_held w)
   \<and> filter is_assignment (new_events w (snd (process_document i d w))) = []
   \<and> last_processed_doc_id (snd (process_document i d w)) = last_processed_doc_id w
   \<and> initial_snapshot_received (snd (process_document i d w)) = initial_snapshot_received w
   \<and> filter is_assignment (new_events w (snd (start_worker w))) = []
   \<and> last_processed_doc_id (snd (start_worker w)) = last_processed_doc_id w
   \<and> initial_snapshot_received (snd (start_worker w)) = initial_snapshot_received w
   \<and> filter is_assignment (new_events w (snd (stop_worker w))) = []
   \<and> last_processed_doc_id (snd (stop_worker w)) = last_processed_doc_id w
   \<and> initial_snapshot_received (snd (stop_worker w)) = initial_snapshot_received w"
proof -
  have snap: "\<forall>v b. Assigned v b \<in> set (new_events w (on_snapshot ds cs rt w)) \<longrightarrow>
        (v = LastProcessedDocId \<and> b \<and> initial_snapshot_received w)
      \<or> (v = InitialSnapshotReceived \<and> b = lock_held w \<and> \<not> initial_snapshot_received w)"
  proof (cases "initial_snapshot_received w")
    case True
    from on_snapshot_later_assignments[OF True, of ds cs rt] obtain es
      where "trace (on_snapshot ds cs rt w) = trace w @ es"
        and only: "\<forall>e \<in> set es. is_assignment e \<longrightarrow> e = Assigned LastProcessedDocId True"
      by blast
    then have "new_events w (on_snapshot ds cs rt w) = es"
      by (simp add: new_events_append)
    then show ?thesis using only True by auto
  next
    case False
    then show ?thesis by (simp add: on_snapshot_initial new_events_def)
  qed
  have base: "\<forall>v b. Assigned v b \<in> set (new_events w (start_listener_setup w)) \<longrightarrow>
        v = LastProcessedDocId \<and> b = lock_held w"
    by (simp add: start_listener_setup_events split: option.splits)
  obtain es where "new_events w (snd (process_document i d w)) = ProcessDocument i d # es"
    and "\<forall>e \<in> set es. \<not> is_assignment e"
    using process_document_new_events[of w i d] by blast
  then have proc: "filter is_assignment (new_events w (snd (process_document i d w))) = []"
    by (simp add: filter_none)
  have life: "filter is_assignment (new_events w (snd (start_worker w))) = []"
    "filter is_assignment (new_events w (snd (stop_worker w))) = []"
    by (simp_all add: start_worker_def stop_worker_def new_events_def)
  have frame: "last_processed_doc_id (snd (start_worker w)) = last_processed_doc_id w"
    "initial_snapshot_received (snd (start_worker w)) = initial_snapshot_received w"
    "last_processed_doc_id (snd (stop_worker w)) = last_processed_doc_id w"
    "initial_snapshot_received (snd (stop_worker w)) = initial_snapshot_received w"
    by (simp_all add: start_worker_def stop_worker_def)
  from snap base proc life frame show ?thesis by simp
qed

theorem reconciler_state_writers_witness:
  "Assigned LastProcessedDocId True \<in> set (new_events
      (store_raw ''r1'' example_data (on_snapshot [] [] 0 example_world))
      (on_snapshot [] [(ADDED, ''r1'')] 1
        (store_raw ''r1'' example_data (on_snapshot [] [] 0 example_world))))
   \<and> initial_snapshot_received (store_raw ''r1'' example_data (on_snapshot [] [] 0 example_world))
   \<and> Assigned LastProcessedDocId True \<notin> set (new_events
      (store_raw ''r1'' example_data example_world)
      (start_listener_setup (store_raw ''r1'' example_data example_world)))"
proof -
  let ?w = "store_raw ''r1'' example_data (on_snapshot [] [] 0 example_world)"
  let ?w' = "on_snapshot [] [(ADDED, ''r1'')] 1 ?w"
  let ?v = "store_raw ''r1'' example_data example_world"
  have seen: "initial_snapshot_received ?w"
    by simp
  have q: "fst (get_latest_document_by_timestamp ?w) = Some (''r1'', example_data)"
    by (simp add: get_latest_result fails_def example_data_def)
  have ok: "fst (process_document ''r1'' example_data
      (snd (get_latest_document_by_timestamp (enter_critical_section [(ADDED, ''r1'')] ?w))))"
    by (simp add: processor_eval example_model_def example_data_def)
  have unlocked: "\<not> lock_held ?v"
    by (simp add: example_world_def)
  have ev: "trace ?w' = trace ?w @ new_events ?w ?w'"
    using on_snapshot_later_assignments[OF seen, of "[]" "[(ADDED, ''r1'')]" 1]
    by (auto simp: new_events_append)
  have "Assigned LastProcessedDocId True \<in> set (trace ?w')"
    using seen q ok by (simp add: on_snapshot_later Let_def)
  moreover have "Assigned LastProcessedDocId True \<notin> set (trace ?w)"
    by (simp add: on_snapshot_def example_world_def)
  ultimately have 1: "Assigned LastProcessedDocId True \<in> set (new_events ?w ?w')"
    using ev by auto
  from reconciler_state_writers[of ?v "[]" "[]" 0 "''r1''" example_data] unlocked
  have 2: "Assigned LastProcessedDocId True \<notin> set (new_events ?v (start_listener_setup ?v))"
    by blast
  from 1 seen 2 show ?thesis by simp
qed

text \<open>
  The claim as stated fails: in a fresh process the first callback assigns
  \<open>initial_snapshot_received\<close> without the lock, and the baseline step assigns
  \<open>last_processed_doc_id\<close> without the lock.
\<close>

theorem unlocked_assignments_counterexample:
  "\<not> lock_held example_world
   \<and> new_events example_world (on_snapshot [] [] 0 example_world)
      = [Assigned InitialSnapshotReceived False, Printed (InitialSnapshot 0)]
   \<and> new_events (store_raw ''r1'' example_data example_world)
        (start_listener_setup (store_raw ''r1'' example_data example_world))
      = [Queried, Assigned LastProcessedDocId False, Subscribed]"
proof -
  let ?v = "store_raw ''r1'' example_data example_world"
  have "fst (get_current_latest_document ?v) = Some (''r1'', example_data)"
    by (simp add: get_current_latest_document_eq get_latest_result fails_def example_world_def
        example_data_def)
  moreover have "\<not> lock_held ?v" "\<not> lock_held example_world"
    by (simp_all add: example_world_def)
  ultimately have "new_events ?v (start_listener_setup ?v)
      = [Queried, Assigned LastProcessedDocId False, Subscribed]"
    by (simp add: start_listener_setup_events)
  moreover have "new_events example_world (on_snapshot [] [] 0 example_world)
      = [Assigned InitialSnapshotReceived False, Printed (InitialSnapshot 0)]"
    by (simp add: on_snapshot_def new_events_def example_world_def)
  moreover have "\<not> lock_held example_world"
    by (simp add: example_world_def)
  ultimately show ?thesis by simp
qed

section \<open>The worker's lifecycle\<close>





section \<open>The baseline\<close>









end
